theory Spec2Isabelle
  imports Complex_Main "HOL-Library.Sublist"
begin

section \<open>Python values and the operations the module applies to them\<close>

text \<open>
  The module \<^verbatim>\<open>honeybee_doe2/properties/model.py\<close> is dynamically typed: what a delegated
  check returns is a \<^verbatim>\<open>str\<close> or a \<^verbatim>\<open>list\<close>, and the dictionary handed to
  \<^verbatim>\<open>apply_properties_from_dict\<close> is parsed JSON. One datatype holds both. The type
  \<open>'n\<close> stands for Python's numbers (the tolerances are floats; no operation of the
  module looks inside one except to test it against zero). A \<^verbatim>\<open>dict\<close> is the list of
  its items in insertion order, the keys distinct, read with \<open>map_of\<close>.
\<close>

datatype 'n pyval =
    PNone
  | PBool bool
  | PNum 'n
  | PStr string
  | PList "'n pyval list"
  | PDict "(string \<times> 'n pyval) list"

text \<open>The exceptions the module's own statements can raise.\<close>

datatype error =
    ValueError string
  | AssertionError string
  | KeyError string
  | TypeError

text \<open>Truth value testing, as in \<^verbatim>\<open>if msg\<close>.\<close>

fun truthy :: "('n::zero) pyval \<Rightarrow> bool" where
  "truthy PNone = False"
| "truthy (PBool b) = b"
| "truthy (PNum n) = (n \<noteq> 0)"
| "truthy (PStr s) = (s \<noteq> [])"
| "truthy (PList xs) = (xs \<noteq> [])"
| "truthy (PDict kvs) = (kvs \<noteq> [])"

text \<open>
  Iteration, as in \<^verbatim>\<open>for m in msg\<close> and \<^verbatim>\<open>msgs.extend(msg)\<close>: a string yields its
  characters as one-character strings, a list its elements, a dict its keys; anything
  else is not iterable.
\<close>

fun py_iter :: "'n pyval \<Rightarrow> error + 'n pyval list" where
  "py_iter (PStr s) = Inr (map (\<lambda>c. PStr [c]) s)"
| "py_iter (PList xs) = Inr xs"
| "py_iter (PDict kvs) = Inr (map (\<lambda>(k, v). PStr k) kvs)"
| "py_iter _ = Inl TypeError"

text \<open>\<^verbatim>\<open>sep.join(xs)\<close> on strings.\<close>

fun join :: "string \<Rightarrow> string list \<Rightarrow> string" where
  "join sep [] = []"
| "join sep [x] = x"
| "join sep (x # y # ys) = x @ sep @ join sep (y # ys)"

text \<open>\<^verbatim>\<open>str.join\<close> raises \<^verbatim>\<open>TypeError\<close> on the first element that is not a \<^verbatim>\<open>str\<close>.\<close>

fun strs :: "'n pyval list \<Rightarrow> error + string list" where
  "strs [] = Inr []"
| "strs (PStr s # xs) = (case strs xs of Inl e \<Rightarrow> Inl e | Inr ss \<Rightarrow> Inr (s # ss))"
| "strs (_ # xs) = Inl TypeError"

definition py_join :: "string \<Rightarrow> 'n pyval list \<Rightarrow> error + string" where
  "py_join sep xs = (case strs xs of Inl e \<Rightarrow> Inl e | Inr ss \<Rightarrow> Inr (join sep ss))"

definition newline :: string where
  "newline = [CHR 0x0A]"

text \<open>
  The nested comprehension \<^verbatim>\<open>[m for msg in full_msgs for m in msg]\<close>: it stops at the
  first \<^verbatim>\<open>msg\<close> that is not iterable.
\<close>

fun flatten :: "'n pyval list \<Rightarrow> error + 'n pyval list" where
  "flatten [] = Inr []"
| "flatten (msg # rest) =
     (case py_iter msg of
        Inl e \<Rightarrow> Inl e
      | Inr ms \<Rightarrow> (case flatten rest of Inl e \<Rightarrow> Inl e | Inr ms' \<Rightarrow> Inr (ms @ ms')))"

text \<open>Subscription with a string key, \<^verbatim>\<open>d[k]\<close>.\<close>

fun py_getitem :: "'n pyval \<Rightarrow> string \<Rightarrow> error + 'n pyval" where
  "py_getitem (PDict kvs) k =
     (case map_of kvs k of None \<Rightarrow> Inl (KeyError k) | Some v \<Rightarrow> Inr v)"
| "py_getitem _ k = Inl TypeError"

text \<open>
  Membership of a string, \<^verbatim>\<open>k in x\<close>: a key of a dict, an element of a list, a substring
  of a string; a \<^verbatim>\<open>TypeError\<close> on anything else.
\<close>

fun py_contains :: "string \<Rightarrow> 'n pyval \<Rightarrow> error + bool" where
  "py_contains k (PDict kvs) = Inr (map_of kvs k \<noteq> None)"
| "py_contains k (PList xs) = Inr (PStr k \<in> set xs)"
| "py_contains k (PStr s) = Inr (sublist k s)"
| "py_contains k _ = Inl TypeError"

section \<open>The host model and its collaborators\<close>

text \<open>
  The host is a honeybee \<^verbatim>\<open>Model\<close>: the attributes the module reads and the check
  methods it calls, each a function of its arguments in the order of the call. The
  check of the energy extension, \<^verbatim>\<open>host.properties.energy\<close>, is the last of them.
  A room is seen through its own DOE-2 properties object, of type \<open>'p\<close>.
\<close>

record ('n, 'u, 'p) model =
  tolerance :: 'n
  angle_tolerance :: 'n
  units :: 'u
  rooms :: "'p list"
  check_all_duplicate_identifiers :: "bool \<Rightarrow> bool \<Rightarrow> 'n pyval"
  check_planar :: "'n \<Rightarrow> bool \<Rightarrow> bool \<Rightarrow> 'n pyval"
  check_self_intersecting :: "'n \<Rightarrow> bool \<Rightarrow> bool \<Rightarrow> 'n pyval"
  check_degenerate_rooms :: "'n \<Rightarrow> bool \<Rightarrow> bool \<Rightarrow> 'n pyval"
  check_sub_faces_valid :: "'n \<Rightarrow> 'n \<Rightarrow> bool \<Rightarrow> bool \<Rightarrow> 'n pyval"
  check_sub_faces_overlapping :: "'n \<Rightarrow> bool \<Rightarrow> bool \<Rightarrow> 'n pyval"
  check_rooms_solid :: "'n \<Rightarrow> 'n \<Rightarrow> bool \<Rightarrow> bool \<Rightarrow> 'n pyval"
  check_upside_down_faces :: "'n \<Rightarrow> bool \<Rightarrow> bool \<Rightarrow> 'n pyval"
  check_room_volume_collisions :: "'n \<Rightarrow> bool \<Rightarrow> bool \<Rightarrow> 'n pyval"
  check_missing_adjacencies :: "bool \<Rightarrow> bool \<Rightarrow> 'n pyval"
  check_matching_adjacent_areas :: "'n \<Rightarrow> bool \<Rightarrow> bool \<Rightarrow> 'n pyval"
  check_all_air_boundaries_adjacent :: "bool \<Rightarrow> bool \<Rightarrow> 'n pyval"
  check_interior_constructions_reversed :: "bool \<Rightarrow> bool \<Rightarrow> 'n pyval"

text \<open>
  Code the module calls and does not define: \<^verbatim>\<open>honeybee.units.parse_distance_string\<close>,
  and the two methods of a room's DOE-2 properties, with the receiver as first argument.
  The room's \<^verbatim>\<open>apply_properties_from_dict\<close> mutates the room and may raise an exception
  of its own, of type \<open>'x\<close>: it returns the exception, if any, and the room as it left it.
\<close>

record ('n, 'u, 'p, 'x) externals =
  parse_distance_string :: "string \<Rightarrow> 'u \<Rightarrow> 'n"
  check_no_holes :: "'p \<Rightarrow> bool \<Rightarrow> bool \<Rightarrow> 'n pyval"
  room_apply_properties_from_dict :: "'p \<Rightarrow> 'n pyval \<Rightarrow> 'x option \<times> 'p"

text \<open>
  A call of a delegated check, with its arguments: the trace of a run is the list of the
  calls it made, in order.
\<close>

datatype ('n, 'p) call =
    Check_all_duplicate_identifiers bool bool
  | Check_planar 'n bool bool
  | Check_self_intersecting 'n bool bool
  | Check_degenerate_rooms 'n bool bool
  | Check_sub_faces_valid 'n 'n bool bool
  | Check_sub_faces_overlapping 'n bool bool
  | Check_rooms_solid 'n 'n bool bool
  | Check_upside_down_faces 'n bool bool
  | Check_room_volume_collisions 'n bool bool
  | Check_missing_adjacencies bool bool
  | Check_matching_adjacent_areas 'n bool bool
  | Check_all_air_boundaries_adjacent bool bool
  | Check_interior_constructions_reversed bool bool
  | Check_no_holes 'p bool bool

primrec dispatch ::
  "('n, 'u, 'p, 'x) externals \<Rightarrow> ('n, 'u, 'p) model \<Rightarrow> ('n, 'p) call \<Rightarrow> 'n pyval" where
  "dispatch ext h (Check_all_duplicate_identifiers r d) = check_all_duplicate_identifiers h r d"
| "dispatch ext h (Check_planar t r d) = check_planar h t r d"
| "dispatch ext h (Check_self_intersecting t r d) = check_self_intersecting h t r d"
| "dispatch ext h (Check_degenerate_rooms t r d) = check_degenerate_rooms h t r d"
| "dispatch ext h (Check_sub_faces_valid t a r d) = check_sub_faces_valid h t a r d"
| "dispatch ext h (Check_sub_faces_overlapping t r d) = check_sub_faces_overlapping h t r d"
| "dispatch ext h (Check_rooms_solid t a r d) = check_rooms_solid h t a r d"
| "dispatch ext h (Check_upside_down_faces a r d) = check_upside_down_faces h a r d"
| "dispatch ext h (Check_room_volume_collisions t r d) = check_room_volume_collisions h t r d"
| "dispatch ext h (Check_missing_adjacencies r d) = check_missing_adjacencies h r d"
| "dispatch ext h (Check_matching_adjacent_areas t r d) = check_matching_adjacent_areas h t r d"
| "dispatch ext h (Check_all_air_boundaries_adjacent r d) = check_all_air_boundaries_adjacent h r d"
| "dispatch ext h (Check_interior_constructions_reversed r d) =
     check_interior_constructions_reversed h r d"
| "dispatch ext h (Check_no_holes room r d) = check_no_holes ext room r d"

text \<open>Making a call: its result, and the trace with the call added.\<close>

definition perform ::
  "('n, 'u, 'p, 'x) externals \<Rightarrow> ('n, 'u, 'p) model \<Rightarrow> ('n, 'p) call \<Rightarrow> ('n, 'p) call list
     \<Rightarrow> 'n pyval \<times> ('n, 'p) call list" where
  "perform ext h c trace = (dispatch ext h c, trace @ [c])"

section \<open>The checks of \<^verbatim>\<open>ModelDoe2Properties\<close>\<close>

text \<open>
  Each function returns what the method returns (\<open>Inr\<close>) or the exception it raises
  (\<open>Inl\<close>), and the trace of the delegated calls made up to there.
\<close>

text \<open>
  The loop of \<^verbatim>\<open>check_no_room_holes\<close> over \<^verbatim>\<open>self.host.rooms\<close>, with the list
  \<^verbatim>\<open>msgs\<close> it builds.
\<close>

fun no_room_holes_loop ::
  "('n, 'u, 'p, 'x) externals \<Rightarrow> ('n, 'u, 'p) model \<Rightarrow> bool \<Rightarrow> 'p list \<Rightarrow> 'n pyval list
     \<Rightarrow> ('n, 'p) call list \<Rightarrow> (error + 'n pyval list) \<times> ('n, 'p) call list" where
  "no_room_holes_loop ext h detailed [] msgs trace = (Inr msgs, trace)"
| "no_room_holes_loop ext h detailed (room # rest) msgs trace =
     (let (msg, trace) = perform ext h (Check_no_holes room False detailed) trace in
      if detailed then
        (case py_iter msg of
           Inl e \<Rightarrow> (Inl e, trace)
         | Inr ms \<Rightarrow> no_room_holes_loop ext h detailed rest (msgs @ ms) trace)
      else if msg \<noteq> PStr [] then no_room_holes_loop ext h detailed rest (msgs @ [msg]) trace
      else no_room_holes_loop ext h detailed rest msgs trace)"

definition check_no_room_holes ::
  "('n, 'u, 'p, 'x) externals \<Rightarrow> ('n, 'u, 'p) model \<Rightarrow> bool \<Rightarrow> bool \<Rightarrow> ('n, 'p) call list
     \<Rightarrow> (error + 'n pyval) \<times> ('n, 'p) call list" where
  "check_no_room_holes ext h raise_exception detailed0 trace0 =
     (let detailed = (if raise_exception then False else detailed0) in
      case no_room_holes_loop ext h detailed (rooms h) [] trace0 of
        (Inl e, trace) \<Rightarrow> (Inl e, trace)
      | (Inr msgs, trace) \<Rightarrow>
          if detailed then (Inr (PList msgs), trace)
          else
            (case py_join newline msgs of
               Inl e \<Rightarrow> (Inl e, trace)
             | Inr full_msg \<Rightarrow>
                 if raise_exception \<and> length msgs \<noteq> 0 then (Inl (ValueError full_msg), trace)
                 else (Inr (PStr full_msg), trace)))"

text \<open>
  \<^verbatim>\<open>check_for_extension\<close>: thirteen checks of the host, then the local
  \<^verbatim>\<open>check_no_room_holes\<close>, each result appended to \<^verbatim>\<open>msgs\<close>.
\<close>

definition check_for_extension ::
  "('n::zero, 'u, 'p, 'x) externals \<Rightarrow> ('n, 'u, 'p) model \<Rightarrow> bool \<Rightarrow> bool
     \<Rightarrow> ('n, 'p) call list \<Rightarrow> (error + 'n pyval) \<times> ('n, 'p) call list" where
  "check_for_extension ext h raise_exception detailed0 trace0 =
     (let detailed = (if raise_exception then False else detailed0);
          msgs = [];
          tol = tolerance h;
          ang_tol = angle_tolerance h;
          e_tol = parse_distance_string ext ''0.03ft'' (units h);
          (m, trace) = perform ext h (Check_all_duplicate_identifiers False detailed) trace0;
          msgs = msgs @ [m];
          (m, trace) = perform ext h (Check_planar tol False detailed) trace;
          msgs = msgs @ [m];
          (m, trace) = perform ext h (Check_self_intersecting tol False detailed) trace;
          msgs = msgs @ [m];
          (m, trace) = perform ext h (Check_degenerate_rooms e_tol False detailed) trace;
          msgs = msgs @ [m];
          (m, trace) = perform ext h (Check_sub_faces_valid tol ang_tol False detailed) trace;
          msgs = msgs @ [m];
          (m, trace) = perform ext h (Check_sub_faces_overlapping tol False detailed) trace;
          msgs = msgs @ [m];
          (m, trace) = perform ext h (Check_rooms_solid tol ang_tol False detailed) trace;
          msgs = msgs @ [m];
          (m, trace) = perform ext h (Check_upside_down_faces ang_tol False detailed) trace;
          msgs = msgs @ [m];
          (m, trace) = perform ext h (Check_room_volume_collisions tol False detailed) trace;
          msgs = msgs @ [m];
          (m, trace) = perform ext h (Check_missing_adjacencies False detailed) trace;
          msgs = msgs @ [m];
          (m, trace) = perform ext h (Check_matching_adjacent_areas tol False detailed) trace;
          msgs = msgs @ [m];
          (m, trace) = perform ext h (Check_all_air_boundaries_adjacent False detailed) trace;
          msgs = msgs @ [m];
          (m, trace) = perform ext h (Check_interior_constructions_reversed False detailed) trace;
          msgs = msgs @ [m]
      in case check_no_room_holes ext h False detailed trace of
           (Inl e, trace) \<Rightarrow> (Inl e, trace)
         | (Inr m, trace) \<Rightarrow>
             (let msgs = msgs @ [m];
                  full_msgs = filter truthy msgs
              in if detailed then
                   (case flatten full_msgs of
                      Inl e \<Rightarrow> (Inl e, trace)
                    | Inr ms \<Rightarrow> (Inr (PList ms), trace))
                 else
                   (case py_join newline full_msgs of
                      Inl e \<Rightarrow> (Inl e, trace)
                    | Inr full_msg \<Rightarrow>
                        if raise_exception \<and> length full_msgs \<noteq> 0
                        then (Inl (ValueError full_msg), trace)
                        else (Inr (PStr full_msg), trace))))"

text \<open>
  \<^verbatim>\<open>check_generic\<close> and \<^verbatim>\<open>check_all\<close> append nothing to \<^verbatim>\<open>msgs\<close> and call no
  collaborator.
\<close>

definition check_generic ::
  "('n::zero, 'u, 'p) model \<Rightarrow> bool \<Rightarrow> bool \<Rightarrow> error + 'n pyval" where
  "check_generic h raise_exception detailed0 =
     (let detailed = (if raise_exception then False else detailed0);
          msgs = [];
          full_msgs = filter truthy msgs
      in if detailed then
           (case flatten full_msgs of Inl e \<Rightarrow> Inl e | Inr ms \<Rightarrow> Inr (PList ms))
         else
           (case py_join newline full_msgs of
              Inl e \<Rightarrow> Inl e
            | Inr full_msg \<Rightarrow>
                if raise_exception \<and> length full_msgs \<noteq> 0 then Inl (ValueError full_msg)
                else Inr (PStr full_msg)))"

definition check_all ::
  "('n::zero, 'u, 'p) model \<Rightarrow> bool \<Rightarrow> bool \<Rightarrow> error + 'n pyval" where
  "check_all h raise_exception detailed0 =
     (let detailed = (if raise_exception then False else detailed0);
          msgs = [];
          full_msgs = filter truthy msgs
      in if detailed then
           (case flatten full_msgs of Inl e \<Rightarrow> Inl e | Inr ms \<Rightarrow> Inr (PList ms))
         else
           (case py_join newline full_msgs of
              Inl e \<Rightarrow> Inl e
            | Inr full_msg \<Rightarrow>
                if raise_exception \<and> length full_msgs \<noteq> 0 then Inl (ValueError full_msg)
                else Inr (PStr full_msg)))"

section \<open>Applying properties from a dictionary\<close>

text \<open>
  An exception that leaves \<^verbatim>\<open>apply_properties_from_dict\<close> is raised by a statement of
  the method itself or comes out of a room's own \<^verbatim>\<open>apply_properties_from_dict\<close>.
\<close>

datatype 'x raised = Raised error | Raised_by_room 'x

text \<open>
  \<^verbatim>\<open>room_dict['properties']['doe2']\<close> under \<^verbatim>\<open>try\<close>, with \<^verbatim>\<open>None\<close> when either
  subscription raises \<^verbatim>\<open>KeyError\<close>; any other exception is not caught.
\<close>

definition room_doe2_dict :: "'n pyval \<Rightarrow> error + 'n pyval" where
  "room_doe2_dict room_dict =
     (case py_getitem room_dict ''properties'' of
        Inl (KeyError k) \<Rightarrow> Inr PNone
      | Inl e \<Rightarrow> Inl e
      | Inr props \<Rightarrow>
          (case py_getitem props ''doe2'' of
             Inl (KeyError k) \<Rightarrow> Inr PNone
           | Inl e \<Rightarrow> Inl e
           | Inr r_dict \<Rightarrow> Inr r_dict))"

text \<open>The first loop, over \<^verbatim>\<open>data['rooms']\<close>, building \<^verbatim>\<open>room_doe2_dicts\<close>.\<close>

fun collect_room_doe2_dicts :: "'n pyval list \<Rightarrow> 'n pyval list \<Rightarrow> error + 'n pyval list" where
  "collect_room_doe2_dicts [] room_doe2_dicts = Inr room_doe2_dicts"
| "collect_room_doe2_dicts (room_dict # rest) room_doe2_dicts =
     (case room_doe2_dict room_dict of
        Inl e \<Rightarrow> Inl e
      | Inr r_dict \<Rightarrow> collect_room_doe2_dicts rest (room_doe2_dicts @ [r_dict]))"

text \<open>
  The second loop, over \<^verbatim>\<open>zip(self.host.rooms, room_doe2_dicts)\<close>: it ends with the
  shorter of the two. It returns the exception that ended it, if any, the rooms as the
  loop left them, and the applications it delegated (the room and the dictionary of each).
\<close>

fun apply_to_rooms ::
  "('n, 'u, 'p, 'x) externals \<Rightarrow> 'p list \<Rightarrow> 'n pyval list \<Rightarrow> ('p \<times> 'n pyval) list
     \<Rightarrow> 'x raised option \<times> 'p list \<times> ('p \<times> 'n pyval) list" where
  "apply_to_rooms ext [] room_doe2_dicts applied = (None, [], applied)"
| "apply_to_rooms ext (room # rest) [] applied = (None, room # rest, applied)"
| "apply_to_rooms ext (room # rest) (r_dict # r_dicts) applied =
     (if r_dict \<noteq> PNone then
        (case room_apply_properties_from_dict ext room r_dict of
           (Some x, room') \<Rightarrow> (Some (Raised_by_room x), room' # rest, applied @ [(room, r_dict)])
         | (None, room') \<Rightarrow>
             (case apply_to_rooms ext rest r_dicts (applied @ [(room, r_dict)]) of
                (exc, rest', applied') \<Rightarrow> (exc, room' # rest', applied')))
      else
        (case apply_to_rooms ext rest r_dicts applied of
           (exc, rest', applied') \<Rightarrow> (exc, room # rest', applied')))"

text \<open>
  The \<^verbatim>\<open>assert\<close> statement that opens \<^verbatim>\<open>apply_properties_from_dict\<close>. Python
  executes an \<^verbatim>\<open>assert\<close> only when \<^verbatim>\<open>__debug__\<close> is true, which it is unless the
  interpreter runs with \<^verbatim>\<open>-O\<close>; otherwise the statement is compiled out and its
  condition is not evaluated. The result is the exception the statement raises, if any.
\<close>

definition assert_doe2 :: "bool \<Rightarrow> 'n pyval \<Rightarrow> error option" where
  "assert_doe2 debug data =
     (if \<not> debug then None
      else
        (case py_getitem data ''properties'' of
           Inl e \<Rightarrow> Some e
         | Inr props \<Rightarrow>
             (case py_contains ''doe2'' props of
                Inl e \<Rightarrow> Some e
              | Inr has_doe2 \<Rightarrow>
                  if \<not> has_doe2
                  then Some (AssertionError ''Dictionary possesses no ModelDoe2Properties.'')
                  else None)))"

text \<open>
  \<^verbatim>\<open>apply_properties_from_dict\<close>, with the value of \<^verbatim>\<open>__debug__\<close> as first argument.
  It returns the exception raised, if any, the rooms of the host as the call left them,
  and the applications it delegated to rooms.
\<close>

definition apply_properties_from_dict ::
  "bool \<Rightarrow> ('n, 'u, 'p, 'x) externals \<Rightarrow> ('n, 'u, 'p) model \<Rightarrow> 'n pyval
     \<Rightarrow> 'x raised option \<times> 'p list \<times> ('p \<times> 'n pyval) list" where
  "apply_properties_from_dict debug ext h data =
     (case assert_doe2 debug data of
        Some e \<Rightarrow> (Some (Raised e), rooms h, [])
      | None \<Rightarrow>
     (case py_contains ''rooms'' data of
        Inl e \<Rightarrow> (Some (Raised e), rooms h, [])
      | Inr has_rooms \<Rightarrow>
     if \<not> has_rooms then (None, rooms h, [])
     else
     (case py_getitem data ''rooms'' of
        Inl e \<Rightarrow> (Some (Raised e), rooms h, [])
      | Inr room_dicts \<Rightarrow>
     if room_dicts = PNone then (None, rooms h, [])
     else
     (case py_iter room_dicts of
        Inl e \<Rightarrow> (Some (Raised e), rooms h, [])
      | Inr room_dict_list \<Rightarrow>
     (case collect_room_doe2_dicts room_dict_list [] of
        Inl e \<Rightarrow> (Some (Raised e), rooms h, [])
      | Inr room_doe2_dicts \<Rightarrow> apply_to_rooms ext (rooms h) room_doe2_dicts [])))))"

text \<open>\<^verbatim>\<open>to_dict\<close>: the fixed marker of the extension.\<close>

definition to_dict :: "'n pyval" where
  "to_dict = PDict [(''doe2'', PDict [(''type'', PStr ''ModelDoe2Properties'')])]"

section \<open>Vocabulary of the properties\<close>

text \<open>
  What a check returned, read as a message or as a list of records: the string of a
  \<^verbatim>\<open>str\<close>, the elements of a \<^verbatim>\<open>list\<close>.
\<close>

fun str_of :: "'n pyval \<Rightarrow> string" where
  "str_of (PStr s) = s"
| "str_of _ = []"

fun list_of :: "'n pyval \<Rightarrow> 'n pyval list" where
  "list_of (PList xs) = xs"
| "list_of _ = []"

text \<open>
  The shape a check is asked for: a \<^verbatim>\<open>list\<close> when \<^verbatim>\<open>detailed\<close> is true, a
  \<^verbatim>\<open>str\<close> when it is false.
\<close>

fun shaped :: "bool \<Rightarrow> 'n pyval \<Rightarrow> bool" where
  "shaped d (PStr s) = (\<not> d)"
| "shaped d (PList xs) = d"
| "shaped d _ = False"

text \<open>The \<^verbatim>\<open>raise_exception\<close> and the \<^verbatim>\<open>detailed\<close> argument of a call.\<close>

primrec raise_flag :: "('n, 'p) call \<Rightarrow> bool" where
  "raise_flag (Check_all_duplicate_identifiers r d) = r"
| "raise_flag (Check_planar t r d) = r"
| "raise_flag (Check_self_intersecting t r d) = r"
| "raise_flag (Check_degenerate_rooms t r d) = r"
| "raise_flag (Check_sub_faces_valid t a r d) = r"
| "raise_flag (Check_sub_faces_overlapping t r d) = r"
| "raise_flag (Check_rooms_solid t a r d) = r"
| "raise_flag (Check_upside_down_faces a r d) = r"
| "raise_flag (Check_room_volume_collisions t r d) = r"
| "raise_flag (Check_missing_adjacencies r d) = r"
| "raise_flag (Check_matching_adjacent_areas t r d) = r"
| "raise_flag (Check_all_air_boundaries_adjacent r d) = r"
| "raise_flag (Check_interior_constructions_reversed r d) = r"
| "raise_flag (Check_no_holes room r d) = r"

primrec detailed_flag :: "('n, 'p) call \<Rightarrow> bool" where
  "detailed_flag (Check_all_duplicate_identifiers r d) = d"
| "detailed_flag (Check_planar t r d) = d"
| "detailed_flag (Check_self_intersecting t r d) = d"
| "detailed_flag (Check_degenerate_rooms t r d) = d"
| "detailed_flag (Check_sub_faces_valid t a r d) = d"
| "detailed_flag (Check_sub_faces_overlapping t r d) = d"
| "detailed_flag (Check_rooms_solid t a r d) = d"
| "detailed_flag (Check_upside_down_faces a r d) = d"
| "detailed_flag (Check_room_volume_collisions t r d) = d"
| "detailed_flag (Check_missing_adjacencies r d) = d"
| "detailed_flag (Check_matching_adjacent_areas t r d) = d"
| "detailed_flag (Check_all_air_boundaries_adjacent r d) = d"
| "detailed_flag (Check_interior_constructions_reversed r d) = d"
| "detailed_flag (Check_no_holes room r d) = d"

text \<open>
  The documented contract of the delegated checks, of the host and of its rooms: called
  with \<^verbatim>\<open>raise_exception=False\<close>, a check returns a value of the shape asked for.
  The checks of a honeybee \<^verbatim>\<open>Model\<close> and of its rooms are of this kind; the functions
  the records above admit are not all so, and on a check that answers in another shape
  \<^verbatim>\<open>str.join\<close> or the iteration over its result can raise a \<^verbatim>\<open>TypeError\<close>.
\<close>

definition honours_contract ::
  "('n, 'u, 'p, 'x) externals \<Rightarrow> ('n, 'u, 'p) model \<Rightarrow> bool" where
  "honours_contract ext h =
     (\<forall>c. \<not> raise_flag c \<longrightarrow> shaped (detailed_flag c) (dispatch ext h c))"

text \<open>
  The thirteen calls \<^verbatim>\<open>check_for_extension\<close> makes on the host, and the calls
  \<^verbatim>\<open>check_no_room_holes\<close> makes on the rooms, both in the order of the source.
\<close>

definition host_calls ::
  "('n, 'u, 'p, 'x) externals \<Rightarrow> ('n, 'u, 'p) model \<Rightarrow> bool \<Rightarrow> ('n, 'p) call list" where
  "host_calls ext h d =
     [Check_all_duplicate_identifiers False d,
      Check_planar (tolerance h) False d,
      Check_self_intersecting (tolerance h) False d,
      Check_degenerate_rooms (parse_distance_string ext ''0.03ft'' (units h)) False d,
      Check_sub_faces_valid (tolerance h) (angle_tolerance h) False d,
      Check_sub_faces_overlapping (tolerance h) False d,
      Check_rooms_solid (tolerance h) (angle_tolerance h) False d,
      Check_upside_down_faces (angle_tolerance h) False d,
      Check_room_volume_collisions (tolerance h) False d,
      Check_missing_adjacencies False d,
      Check_matching_adjacent_areas (tolerance h) False d,
      Check_all_air_boundaries_adjacent False d,
      Check_interior_constructions_reversed False d]"

definition room_calls :: "('n, 'u, 'p) model \<Rightarrow> bool \<Rightarrow> ('n, 'p) call list" where
  "room_calls h d = map (\<lambda>room. Check_no_holes room False d) (rooms h)"

text \<open>
  The closing statements shared by the checks, from \<^verbatim>\<open>full_msgs = ...\<close> to the final
  \<^verbatim>\<open>return\<close>, as a function of \<^verbatim>\<open>msgs\<close>; and the same on messages known to be
  strings.
\<close>

definition report :: "bool \<Rightarrow> bool \<Rightarrow> ('n::zero) pyval list \<Rightarrow> error + 'n pyval" where
  "report raise_exception detailed msgs =
     (let full_msgs = filter truthy msgs
      in if detailed then
           (case flatten full_msgs of Inl e \<Rightarrow> Inl e | Inr ms \<Rightarrow> Inr (PList ms))
         else
           (case py_join newline full_msgs of
              Inl e \<Rightarrow> Inl e
            | Inr full_msg \<Rightarrow>
                if raise_exception \<and> length full_msgs \<noteq> 0 then Inl (ValueError full_msg)
                else Inr (PStr full_msg)))"

definition raise_or_return :: "bool \<Rightarrow> string list \<Rightarrow> error + 'n pyval" where
  "raise_or_return raise_exception found =
     (if raise_exception \<and> found \<noteq> [] then Inl (ValueError (join newline found))
      else Inr (PStr (join newline found)))"

definition text_report :: "bool \<Rightarrow> string list \<Rightarrow> error + 'n pyval" where
  "text_report raise_exception texts =
     raise_or_return raise_exception (filter (\<lambda>s. s \<noteq> []) texts)"

text \<open>The tolerances handed to \<^verbatim>\<open>check_degenerate_rooms\<close> over a trace.\<close>

primrec degenerate_rooms_tolerance :: "('n, 'p) call \<Rightarrow> 'n list" where
  "degenerate_rooms_tolerance (Check_all_duplicate_identifiers r d) = []"
| "degenerate_rooms_tolerance (Check_planar t r d) = []"
| "degenerate_rooms_tolerance (Check_self_intersecting t r d) = []"
| "degenerate_rooms_tolerance (Check_degenerate_rooms t r d) = [t]"
| "degenerate_rooms_tolerance (Check_sub_faces_valid t a r d) = []"
| "degenerate_rooms_tolerance (Check_sub_faces_overlapping t r d) = []"
| "degenerate_rooms_tolerance (Check_rooms_solid t a r d) = []"
| "degenerate_rooms_tolerance (Check_upside_down_faces a r d) = []"
| "degenerate_rooms_tolerance (Check_room_volume_collisions t r d) = []"
| "degenerate_rooms_tolerance (Check_missing_adjacencies r d) = []"
| "degenerate_rooms_tolerance (Check_matching_adjacent_areas t r d) = []"
| "degenerate_rooms_tolerance (Check_all_air_boundaries_adjacent r d) = []"
| "degenerate_rooms_tolerance (Check_interior_constructions_reversed r d) = []"
| "degenerate_rooms_tolerance (Check_no_holes room r d) = []"

definition degenerate_rooms_tolerances :: "('n, 'p) call list \<Rightarrow> 'n list" where
  "degenerate_rooms_tolerances trace = concat (map degenerate_rooms_tolerance trace)"

text \<open>
  Sample collaborators: a check that finds nothing, a check that finds one issue, a host
  whose checks find nothing, and one with a face that is not planar, a missing adjacency
  and a room with a hole. A sample room is its identifier and the DOE-2 dictionary last
  applied to it.
\<close>

definition quiet :: "bool \<Rightarrow> real pyval" where
  "quiet detailed = (if detailed then PList [] else PStr [])"

definition issue :: "string \<Rightarrow> bool \<Rightarrow> real pyval" where
  "issue message detailed =
     (if detailed then PList [PDict [(''message'', PStr message)]] else PStr message)"

definition sample_externals :: "(real, string, string \<times> real pyval, string) externals" where
  "sample_externals =
     \<lparr>parse_distance_string = (\<lambda>s u. if s = ''0.03ft'' \<and> u = ''Meters'' then 0.009144 else 0.03),
      check_no_holes = (\<lambda>room r d. if fst room = ''Room_B'' then issue ''Room_B has a hole'' d
                                     else quiet d),
      room_apply_properties_from_dict = (\<lambda>room r_dict. (None, (fst room, r_dict)))\<rparr>"

definition clean_host :: "(real, string, string \<times> real pyval) model" where
  "clean_host =
     \<lparr>tolerance = 0.01, angle_tolerance = 1, units = ''Meters'',
      rooms = [(''Room_A'', PNone)],
      check_all_duplicate_identifiers = (\<lambda>r. quiet),
      check_planar = (\<lambda>t r. quiet),
      check_self_intersecting = (\<lambda>t r. quiet),
      check_degenerate_rooms = (\<lambda>t r. quiet),
      check_sub_faces_valid = (\<lambda>t a r. quiet),
      check_sub_faces_overlapping = (\<lambda>t r. quiet),
      check_rooms_solid = (\<lambda>t a r. quiet),
      check_upside_down_faces = (\<lambda>a r. quiet),
      check_room_volume_collisions = (\<lambda>t r. quiet),
      check_missing_adjacencies = (\<lambda>r. quiet),
      check_matching_adjacent_areas = (\<lambda>t r. quiet),
      check_all_air_boundaries_adjacent = (\<lambda>r. quiet),
      check_interior_constructions_reversed = (\<lambda>r. quiet)\<rparr>"

definition faulty_host :: "(real, string, string \<times> real pyval) model" where
  "faulty_host =
     clean_host
       \<lparr>rooms := [(''Room_A'', PNone), (''Room_B'', PNone)],
        check_planar := (\<lambda>t r. issue ''not planar''),
        check_missing_adjacencies := (\<lambda>r. issue ''missing adjacency'')\<rparr>"

text \<open>
  What the fourteen checks of \<^verbatim>\<open>check_for_extension\<close> return, in call order: the
  thirteen of the host, then the local \<^verbatim>\<open>check_no_room_holes\<close>.
\<close>

definition check_results ::
  "('n, 'u, 'p, 'x) externals \<Rightarrow> ('n, 'u, 'p) model \<Rightarrow> bool \<Rightarrow> 'n pyval list" where
  "check_results ext h d =
     map (dispatch ext h) (host_calls ext h d) @
     (case fst (check_no_room_holes ext h False d []) of Inl e \<Rightarrow> [] | Inr m \<Rightarrow> [m])"

text \<open>
  Sample dictionaries: a model with five rooms, of which the second has no \<^verbatim>\<open>'doe2'\<close>,
  the third no \<^verbatim>\<open>'properties'\<close>, the fourth an empty \<^verbatim>\<open>'doe2'\<close> dictionary and the
  fifth a \<^verbatim>\<open>'doe2'\<close> that is \<^verbatim>\<open>None\<close>; a model without \<^verbatim>\<open>'doe2'\<close>; one without
  \<^verbatim>\<open>'rooms'\<close>; one whose \<^verbatim>\<open>'rooms'\<close> is \<^verbatim>\<open>None\<close>.
\<close>

definition sample_data :: "real pyval" where
  "sample_data =
     PDict
       [(''type'', PStr ''Model''),
        (''properties'',
         PDict [(''type'', PStr ''ModelProperties''),
                (''doe2'', PDict [(''type'', PStr ''ModelDoe2Properties'')])]),
        (''rooms'',
         PList
           [PDict [(''identifier'', PStr ''Room_A''),
                   (''properties'', PDict [(''doe2'', PDict [(''type'', PStr ''RoomDoe2Properties'')])])],
            PDict [(''identifier'', PStr ''Room_B''),
                   (''properties'', PDict [(''type'', PStr ''RoomProperties'')])],
            PDict [(''identifier'', PStr ''Room_C'')],
            PDict [(''identifier'', PStr ''Room_D''),
                   (''properties'', PDict [(''doe2'', PDict [])])],
            PDict [(''identifier'', PStr ''Room_E''),
                   (''properties'', PDict [(''doe2'', PNone)])]])]"

definition data_without_doe2 :: "real pyval" where
  "data_without_doe2 =
     PDict
       [(''type'', PStr ''Model''),
        (''properties'', PDict [(''type'', PStr ''ModelProperties''), (''energy'', PDict [])]),
        (''rooms'', PList [])]"

definition data_without_rooms :: "real pyval" where
  "data_without_rooms =
     PDict
       [(''type'', PStr ''Model''),
        (''properties'',
         PDict [(''type'', PStr ''ModelProperties''),
                (''doe2'', PDict [(''type'', PStr ''ModelDoe2Properties'')])])]"

definition data_null_rooms :: "real pyval" where
  "data_null_rooms =
     PDict
       [(''type'', PStr ''Model''),
        (''properties'',
         PDict [(''type'', PStr ''ModelProperties''),
                (''doe2'', PDict [(''type'', PStr ''ModelDoe2Properties'')])]),
        (''rooms'', PNone)]"

definition five_room_host :: "(real, string, string \<times> real pyval) model" where
  "five_room_host =
     clean_host
       \<lparr>rooms := [(''Room_A'', PNone), (''Room_B'', PNone), (''Room_C'', PNone),
                  (''Room_D'', PNone), (''Room_E'', PNone)]\<rparr>"

definition six_room_host :: "(real, string, string \<times> real pyval) model" where
  "six_room_host =
     clean_host
       \<lparr>rooms := [(''Room_A'', PNone), (''Room_B'', PNone), (''Room_C'', PNone),
                  (''Room_D'', PNone), (''Room_E'', PNone), (''Room_F'', PNone)]\<rparr>"

section \<open>Lemmas on the operations and the loops\<close>

lemma shaped_True: "shaped True v \<Longrightarrow> v = PList (list_of v)"
  by (cases v) auto

lemma loop_plain:
  "no_room_holes_loop ext h False rs msgs tr =
     (Inr (msgs @ filter (\<lambda>m. m \<noteq> PStr []) (map (\<lambda>room. check_no_holes ext room False False) rs)),
      tr @ map (\<lambda>room. Check_no_holes room False False) rs)"
  by (induction rs arbitrary: msgs tr) (auto simp: perform_def)

lemma loop_detailed:
  "\<forall>room \<in> set rs. shaped True (check_no_holes ext room False True) \<Longrightarrow>
   no_room_holes_loop ext h True rs msgs tr =
     (Inr (msgs @ concat (map (\<lambda>room. list_of (check_no_holes ext room False True)) rs)),
      tr @ map (\<lambda>room. Check_no_holes room False True) rs)"
proof (induction rs arbitrary: msgs tr)
  case Nil
  then show ?case by simp
next
  case (Cons room rs)
  from Cons.prems have "check_no_holes ext room False True = PList (list_of (check_no_holes ext room False True))"
    by (simp add: shaped_True)
  then have it: "py_iter (check_no_holes ext room False True) = Inr (list_of (check_no_holes ext room False True))"
    by (metis py_iter.simps(2))
  from Cons.prems have rest: "\<forall>room \<in> set rs. shaped True (check_no_holes ext room False True)" by simp
  show ?case
    by (simp add: perform_def it Cons.IH [OF rest])
qed

lemma strs_map_PStr: "strs (map PStr ss) = Inr ss"
  by (induction ss) auto

lemma join_append:
  "xs \<noteq> [] \<Longrightarrow> ys \<noteq> [] \<Longrightarrow> join sep (xs @ ys) = join sep xs @ sep @ join sep ys"
  by (induction sep xs rule: join.induct) (auto simp: neq_Nil_conv)

lemma join_nonempty: "xs \<noteq> [] \<Longrightarrow> \<forall>x \<in> set xs. x \<noteq> [] \<Longrightarrow> join sep xs \<noteq> []"
  by (induction sep xs rule: join.induct) auto

lemma join_nested:
  "join sep (filter (\<lambda>s. s \<noteq> []) (xs @ [join sep (filter (\<lambda>s. s \<noteq> []) ys)])) =
   join sep (filter (\<lambda>s. s \<noteq> []) (xs @ ys))"
proof (cases "filter (\<lambda>s. s \<noteq> []) ys = []")
  case True
  then show ?thesis by simp
next
  case False
  then have ne: "join sep (filter (\<lambda>s. s \<noteq> []) ys) \<noteq> []"
    by (intro join_nonempty) auto
  show ?thesis
  proof (cases "filter (\<lambda>s. s \<noteq> []) xs = []")
    case True
    then show ?thesis using ne by simp
  next
    case xs: False
    show ?thesis using ne False xs by (simp add: join_append)
  qed
qed

lemma forced: "(if r then False else d) = (\<not> r \<and> d)"
  by simp

lemma report_pair:
  "(if d then (case flatten (filter truthy ms) of
                 Inl e \<Rightarrow> (Inl e, t) | Inr x \<Rightarrow> (Inr (PList x), t))
    else (case py_join newline (filter truthy ms) of
            Inl e \<Rightarrow> (Inl e, t)
          | Inr full_msg \<Rightarrow>
              if r \<and> length (filter truthy ms) \<noteq> 0 then (Inl (ValueError full_msg), t)
              else (Inr (PStr full_msg), t))) =
   (report r d ms, t)"
  by (simp add: report_def Let_def split: sum.splits)

lemma check_for_extension_unfold:
  assumes "d = (\<not> r \<and> d0)"
  shows "check_for_extension ext h r d0 tr =
     (case check_no_room_holes ext h False d (tr @ host_calls ext h d) of
        (Inl e, t) \<Rightarrow> (Inl e, t)
      | (Inr m, t) \<Rightarrow> (report r d (map (dispatch ext h) (host_calls ext h d) @ [m]), t))"
  unfolding check_for_extension_def forced Let_def perform_def prod.case host_calls_def assms
  by (simp only: append_assoc append.simps list.map report_pair)

lemma filter_ne_shaped:
  "\<forall>v \<in> set vs. shaped False v \<Longrightarrow>
   filter (\<lambda>m. m \<noteq> PStr []) vs = map PStr (filter (\<lambda>s. s \<noteq> []) (map str_of vs))"
proof (induction vs)
  case Nil
  then show ?case by simp
next
  case (Cons v vs)
  then show ?case by (cases v) (auto simp del: filter_map)
qed

lemma filter_truthy_shaped:
  "\<forall>v \<in> set vs. shaped False v \<Longrightarrow>
   filter truthy vs = map PStr (filter (\<lambda>s. s \<noteq> []) (map str_of vs))"
proof (induction vs)
  case Nil
  then show ?case by simp
next
  case (Cons v vs)
  then show ?case by (cases v) (auto simp del: filter_map)
qed

lemma flatten_shaped:
  "\<forall>v \<in> set vs. shaped True v \<Longrightarrow>
   flatten (filter truthy vs) = Inr (concat (map list_of vs))"
proof (induction vs)
  case Nil
  then show ?case by simp
next
  case (Cons v vs)
  then show ?case by (cases v) auto
qed

lemma py_join_map_PStr: "py_join sep (map PStr ss) = Inr (join sep ss)"
  by (simp add: py_join_def strs_map_PStr)

lemma text_tail:
  "(case py_join newline (map PStr found) of
      Inl e \<Rightarrow> Inl e
    | Inr full_msg \<Rightarrow>
        if r \<and> length (map PStr found) \<noteq> 0 then Inl (ValueError full_msg)
        else Inr (PStr full_msg)) =
   raise_or_return r found"
  by (simp add: py_join_map_PStr raise_or_return_def)

lemma report_text:
  assumes "\<forall>v \<in> set vs. shaped False v"
  shows "report r False vs = text_report r (map str_of vs)"
  unfolding report_def text_report_def Let_def filter_truthy_shaped [OF assms] text_tail
  by simp

lemma report_detailed:
  "\<forall>v \<in> set vs. shaped True v \<Longrightarrow> report r True vs = Inr (PList (concat (map list_of vs)))"
  by (simp add: report_def flatten_shaped Let_def)

lemma text_tail_pair:
  "(case py_join newline (map PStr found) of
      Inl e \<Rightarrow> (Inl e, t)
    | Inr full_msg \<Rightarrow>
        if r \<and> length (map PStr found) \<noteq> 0 then (Inl (ValueError full_msg), t)
        else (Inr (PStr full_msg), t)) =
   (raise_or_return r found, t)"
  by (simp add: py_join_map_PStr raise_or_return_def)

lemma check_no_room_holes_text:
  assumes "\<forall>room \<in> set (rooms h). shaped False (check_no_holes ext room False False)"
  shows "check_no_room_holes ext h r False tr =
           (text_report r (map (\<lambda>room. str_of (check_no_holes ext room False False)) (rooms h)),
            tr @ room_calls h False)"
proof -
  let ?vs = "map (\<lambda>room. check_no_holes ext room False False) (rooms h)"
  have sh: "\<forall>v \<in> set ?vs. shaped False v" using assms by simp
  have m: "map str_of ?vs = map (\<lambda>room. str_of (check_no_holes ext room False False)) (rooms h)"
    by (simp add: comp_def)
  have d: "(if r then False else False) = False" by simp
  show ?thesis
    unfolding check_no_room_holes_def d Let_def loop_plain prod.case sum.case if_False append.simps
      filter_ne_shaped [OF sh] text_tail_pair m room_calls_def text_report_def
    by (rule refl)
qed

lemma check_no_room_holes_forced:
  "check_no_room_holes ext h True d tr = check_no_room_holes ext h True False tr"
  by (simp add: check_no_room_holes_def)

lemma check_no_room_holes_detailed:
  assumes "\<forall>room \<in> set (rooms h). shaped True (check_no_holes ext room False True)"
  shows "check_no_room_holes ext h False True tr =
           (Inr (PList (concat (map (\<lambda>room. list_of (check_no_holes ext room False True)) (rooms h)))),
            tr @ room_calls h True)"
  by (simp add: check_no_room_holes_def loop_detailed [OF assms] room_calls_def)


lemma snd_check_no_room_holes:
  "snd (check_no_room_holes ext h r d tr) =
   snd (no_room_holes_loop ext h (\<not> r \<and> d) (rooms h) [] tr)"
  by (simp add: check_no_room_holes_def forced Let_def split: prod.splits sum.splits)

lemma snd_check_for_extension:
  "snd (check_for_extension ext h r d tr) =
   snd (check_no_room_holes ext h False (\<not> r \<and> d) (tr @ host_calls ext h (\<not> r \<and> d)))"
  by (simp add: check_for_extension_unfold [OF refl] split: prod.splits sum.splits)

lemma loop_trace_shift:
  "snd (no_room_holes_loop ext h d rs msgs tr) = tr @ snd (no_room_holes_loop ext h d rs msgs [])"
proof (induction rs arbitrary: msgs tr)
  case Nil
  show ?case by simp
next
  case (Cons room rs)
  let ?c = "Check_no_holes room False d"
  have step: "snd (no_room_holes_loop ext h d rs ms (t @ [?c])) =
              t @ snd (no_room_holes_loop ext h d rs ms [?c])" for ms t
  proof -
    have "snd (no_room_holes_loop ext h d rs ms (t @ [?c])) =
          (t @ [?c]) @ snd (no_room_holes_loop ext h d rs ms [])"
      by (rule Cons.IH)
    also have "\<dots> = t @ ([?c] @ snd (no_room_holes_loop ext h d rs ms []))"
      by simp
    also have "[?c] @ snd (no_room_holes_loop ext h d rs ms []) =
               snd (no_room_holes_loop ext h d rs ms [?c])"
      by (rule Cons.IH [symmetric])
    finally show ?thesis .
  qed
  show ?case
    using step by (cases d) (simp_all add: perform_def split: sum.splits)
qed

lemma tolerances_append:
  "degenerate_rooms_tolerances (xs @ ys) =
   degenerate_rooms_tolerances xs @ degenerate_rooms_tolerances ys"
  by (simp add: degenerate_rooms_tolerances_def)

lemma tolerances_snoc:
  "degenerate_rooms_tolerances (t @ [Check_no_holes room r d]) = degenerate_rooms_tolerances t"
  by (simp add: degenerate_rooms_tolerances_def)

lemma loop_tolerances:
  "degenerate_rooms_tolerances (snd (no_room_holes_loop ext h d rs msgs tr)) =
   degenerate_rooms_tolerances tr"
proof (induction rs arbitrary: msgs tr)
  case Nil
  show ?case by simp
next
  case (Cons room rs)
  show ?case
    using Cons.IH by (cases d) (simp_all add: perform_def tolerances_snoc split: sum.splits)
qed

lemma host_calls_tolerances:
  "degenerate_rooms_tolerances (host_calls ext h d) = [parse_distance_string ext ''0.03ft'' (units h)]"
  by (simp add: degenerate_rooms_tolerances_def host_calls_def)

lemma report_str:
  "report r False ms = Inr v \<Longrightarrow> \<exists>s. v = PStr s"
  by (auto simp: report_def Let_def split: sum.splits if_splits)

lemma check_no_room_holes_str:
  "fst (check_no_room_holes ext h True d tr) = Inr v \<Longrightarrow> \<exists>s. v = PStr s"
  by (auto simp: check_no_room_holes_def Let_def split: prod.splits sum.splits if_splits)

lemma check_for_extension_str:
  "fst (check_for_extension ext h True d tr) = Inr v \<Longrightarrow> \<exists>s. v = PStr s"
  by (auto simp: check_for_extension_unfold [of False True] dest: report_str
      split: prod.splits sum.splits)

lemma check_for_extension_forced:
  "check_for_extension ext h True d tr = check_for_extension ext h True False tr"
  by (simp add: check_for_extension_unfold [of False True])

lemma host_calls_flags:
  "c \<in> set (host_calls ext h d) \<Longrightarrow> \<not> raise_flag c \<and> detailed_flag c = d"
  by (auto simp: host_calls_def)

lemma contract_host_calls:
  assumes "honours_contract ext h" and "c \<in> set (host_calls ext h d)"
  shows "shaped d (dispatch ext h c)"
  using assms(1) [unfolded honours_contract_def, rule_format, of c] host_calls_flags [OF assms(2)]
  by simp

lemma contract_rooms:
  assumes "honours_contract ext h"
  shows "shaped d (check_no_holes ext room False d)"
  using assms [unfolded honours_contract_def, rule_format, of "Check_no_holes room False d"]
  by simp

lemma text_report_not_raising:
  "text_report False texts = Inr (PStr (join newline (filter (\<lambda>s. s \<noteq> []) texts)))"
  by (simp add: text_report_def raise_or_return_def)

lemma filter_nested_empty:
  "(filter (\<lambda>s. s \<noteq> []) (xs @ [join sep (filter (\<lambda>s. s \<noteq> []) ys)]) = []) =
   (filter (\<lambda>s. s \<noteq> []) (xs @ ys) = [])"
proof (cases "filter (\<lambda>s. s \<noteq> []) ys = []")
  case True
  then show ?thesis by simp
next
  case False
  then have "join sep (filter (\<lambda>s. s \<noteq> []) ys) \<noteq> []"
    by (intro join_nonempty) auto
  with False show ?thesis by simp
qed

lemma text_report_nested:
  "text_report r (xs @ [join newline (filter (\<lambda>s. s \<noteq> []) ys)]) = text_report r (xs @ ys)"
  unfolding text_report_def raise_or_return_def join_nested filter_nested_empty
  by (rule refl)

lemma check_for_extension_text_nested:
  assumes "honours_contract ext h" and "r \<or> \<not> d0"
  shows "check_for_extension ext h r d0 tr =
           (text_report r
              (map (\<lambda>c. str_of (dispatch ext h c)) (host_calls ext h False) @
               [join newline (filter (\<lambda>s. s \<noteq> [])
                  (map (\<lambda>room. str_of (check_no_holes ext room False False)) (rooms h)))]),
            tr @ host_calls ext h False @ room_calls h False)"
proof -
  let ?local = "join newline (filter (\<lambda>s. s \<noteq> [])
                  (map (\<lambda>room. str_of (check_no_holes ext room False False)) (rooms h)))"
  let ?vs = "map (dispatch ext h) (host_calls ext h False) @ [PStr ?local]"
  have d: "False = (\<not> r \<and> d0)" using assms(2) by simp
  have rooms_ok: "\<forall>room \<in> set (rooms h). shaped False (check_no_holes ext room False False)"
    using contract_rooms [OF assms(1)] by simp
  have sh: "\<forall>v \<in> set ?vs. shaped False v"
    using contract_host_calls [OF assms(1), of _ False] by auto
  have texts: "map str_of ?vs = map (\<lambda>c. str_of (dispatch ext h c)) (host_calls ext h False) @ [?local]"
    by (simp add: comp_def)
  show ?thesis
    unfolding check_for_extension_unfold [OF d] check_no_room_holes_text [OF rooms_ok]
      text_report_not_raising prod.case sum.case report_text [OF sh] texts
    by simp
qed

lemma room_calls_texts:
  "map (\<lambda>c. str_of (dispatch ext h c)) (room_calls h d) =
   map (\<lambda>room. str_of (check_no_holes ext room False d)) (rooms h)"
  by (simp add: room_calls_def comp_def)

lemma room_calls_lists:
  "map (\<lambda>c. list_of (dispatch ext h c)) (room_calls h d) =
   map (\<lambda>room. list_of (check_no_holes ext room False d)) (rooms h)"
  by (simp add: room_calls_def comp_def)

lemma check_for_extension_text:
  assumes "honours_contract ext h" and "r \<or> \<not> d0"
  shows "check_for_extension ext h r d0 tr =
           (text_report r (map (\<lambda>c. str_of (dispatch ext h c))
                             (host_calls ext h False @ room_calls h False)),
            tr @ host_calls ext h False @ room_calls h False)"
  unfolding check_for_extension_text_nested [OF assms] text_report_nested map_append
    room_calls_texts
  by (rule refl)

lemma check_for_extension_detailed_nested:
  assumes "honours_contract ext h"
  shows "check_for_extension ext h False True tr =
           (Inr (PList (concat (map (\<lambda>c. list_of (dispatch ext h c)) (host_calls ext h True)) @
                        concat (map (\<lambda>room. list_of (check_no_holes ext room False True)) (rooms h)))),
            tr @ host_calls ext h True @ room_calls h True)"
proof -
  let ?local = "concat (map (\<lambda>room. list_of (check_no_holes ext room False True)) (rooms h))"
  let ?vs = "map (dispatch ext h) (host_calls ext h True) @ [PList ?local]"
  have d: "True = (\<not> False \<and> True)" by simp
  have rooms_ok: "\<forall>room \<in> set (rooms h). shaped True (check_no_holes ext room False True)"
    using contract_rooms [OF assms(1)] by simp
  have sh: "\<forall>v \<in> set ?vs. shaped True v"
    using contract_host_calls [OF assms(1), of _ True] by auto
  have lists: "concat (map list_of ?vs) =
               concat (map (\<lambda>c. list_of (dispatch ext h c)) (host_calls ext h True)) @ ?local"
    by (simp add: comp_def)
  show ?thesis
    unfolding check_for_extension_unfold [OF d] check_no_room_holes_detailed [OF rooms_ok]
      prod.case sum.case report_detailed [OF sh] lists
    by simp
qed

lemma check_for_extension_detailed:
  assumes "honours_contract ext h"
  shows "check_for_extension ext h False True tr =
           (Inr (PList (concat (map (\<lambda>c. list_of (dispatch ext h c))
                                  (host_calls ext h True @ room_calls h True)))),
            tr @ host_calls ext h True @ room_calls h True)"
  unfolding check_for_extension_detailed_nested [OF assms] map_append concat_append
    room_calls_lists
  by (rule refl)

lemma clean_host_contract: "honours_contract sample_externals clean_host"
  unfolding honours_contract_def
proof (intro allI impI)
  fix c :: "(real, string \<times> real pyval) call"
  assume "\<not> raise_flag c"
  show "shaped (detailed_flag c) (dispatch sample_externals clean_host c)"
    by (cases c) (simp_all add: sample_externals_def clean_host_def quiet_def issue_def)
qed

lemma faulty_host_contract: "honours_contract sample_externals faulty_host"
  unfolding honours_contract_def
proof (intro allI impI)
  fix c :: "(real, string \<times> real pyval) call"
  assume "\<not> raise_flag c"
  show "shaped (detailed_flag c) (dispatch sample_externals faulty_host c)"
    by (cases c)
      (simp_all add: sample_externals_def faulty_host_def clean_host_def quiet_def issue_def)
qed

lemma check_results_text:
  assumes "honours_contract ext h"
  shows "map str_of (check_results ext h False) =
           map (\<lambda>c. str_of (dispatch ext h c)) (host_calls ext h False) @
           [join newline (filter (\<lambda>s. s \<noteq> [])
              (map (\<lambda>room. str_of (check_no_holes ext room False False)) (rooms h)))]"
proof -
  have rooms_ok: "\<forall>room \<in> set (rooms h). shaped False (check_no_holes ext room False False)"
    using contract_rooms [OF assms] by simp
  show ?thesis
    unfolding check_results_def check_no_room_holes_text [OF rooms_ok] text_report_not_raising
    by (simp add: comp_def)
qed

lemma check_results_lists:
  assumes "honours_contract ext h"
  shows "concat (map list_of (check_results ext h True)) =
           concat (map (\<lambda>c. list_of (dispatch ext h c)) (host_calls ext h True)) @
           concat (map (\<lambda>room. list_of (check_no_holes ext room False True)) (rooms h))"
proof -
  have rooms_ok: "\<forall>room \<in> set (rooms h). shaped True (check_no_holes ext room False True)"
    using contract_rooms [OF assms] by simp
  show ?thesis
    unfolding check_results_def check_no_room_holes_detailed [OF rooms_ok]
    by (simp add: comp_def)
qed

lemma not_truthy_texts:
  "\<forall>v \<in> set vs. \<not> truthy v \<Longrightarrow> filter (\<lambda>s. s \<noteq> []) (map str_of vs) = []"
proof (induction vs)
  case Nil
  show ?case by simp
next
  case (Cons v vs)
  then show ?case by (cases v) simp_all
qed

lemma not_truthy_lists:
  "\<forall>v \<in> set vs. \<not> truthy v \<Longrightarrow> concat (map list_of vs) = []"
proof (induction vs)
  case Nil
  show ?case by simp
next
  case (Cons v vs)
  then show ?case by (cases v) simp_all
qed

lemma truthy_text:
  assumes "c \<in> set cs" and "truthy (dispatch ext h c)" and "shaped False (dispatch ext h c)"
  shows "filter (\<lambda>s. s \<noteq> []) (map (\<lambda>c. str_of (dispatch ext h c)) cs) \<noteq> []"
proof -
  have "str_of (dispatch ext h c) \<noteq> []"
    using assms(2,3) by (cases "dispatch ext h c") simp_all
  with assms(1) have "str_of (dispatch ext h c) \<in>
      set (filter (\<lambda>s. s \<noteq> []) (map (\<lambda>c. str_of (dispatch ext h c)) cs))"
    by auto
  then show ?thesis by (metis empty_iff empty_set)
qed

lemma room_calls_flags:
  "c \<in> set (room_calls h d) \<Longrightarrow> \<not> raise_flag c \<and> detailed_flag c = d"
  by (auto simp: room_calls_def)

lemma contract_calls:
  assumes "honours_contract ext h" and "c \<in> set (host_calls ext h d @ room_calls h d)"
  shows "shaped d (dispatch ext h c)"
proof -
  have "\<not> raise_flag c \<and> detailed_flag c = d"
    using assms(2) host_calls_flags [of c ext h d] room_calls_flags [of c h d] by auto
  then show ?thesis
    using assms(1) [unfolded honours_contract_def, rule_format, of c] by simp
qed

lemma check_no_room_holes_trace_shift:
  "snd (check_no_room_holes ext h r d tr) = tr @ snd (check_no_room_holes ext h r d [])"
  unfolding snd_check_no_room_holes by (rule loop_trace_shift)

lemma check_for_extension_trace:
  "snd (check_for_extension ext h r d0 tr) =
   tr @ host_calls ext h (\<not> r \<and> d0) @ snd (check_no_room_holes ext h False (\<not> r \<and> d0) [])"
proof -
  let ?d = "\<not> r \<and> d0"
  have "snd (check_for_extension ext h r d0 tr) =
        snd (check_no_room_holes ext h False ?d (tr @ host_calls ext h ?d))"
    by (rule snd_check_for_extension)
  also have "\<dots> = (tr @ host_calls ext h ?d) @ snd (check_no_room_holes ext h False ?d [])"
    by (rule check_no_room_holes_trace_shift)
  finally show ?thesis by simp
qed

lemma check_no_room_holes_contract_trace:
  assumes "honours_contract ext h"
  shows "snd (check_no_room_holes ext h False d tr) = tr @ room_calls h d"
proof (cases d)
  case True
  have ok: "\<forall>room \<in> set (rooms h). shaped True (check_no_holes ext room False True)"
    using contract_rooms [OF assms] by simp
  show ?thesis by (simp add: True check_no_room_holes_detailed [OF ok])
next
  case False
  have ok: "\<forall>room \<in> set (rooms h). shaped False (check_no_holes ext room False False)"
    using contract_rooms [OF assms] by simp
  show ?thesis by (simp add: False check_no_room_holes_text [OF ok])
qed

lemma check_for_extension_merged:
  assumes "honours_contract ext h"
  shows "fst (check_for_extension ext h r d0 tr) =
           (if \<not> r \<and> d0
            then Inr (PList (concat (map list_of (map (dispatch ext h)
                   (host_calls ext h (\<not> r \<and> d0) @ room_calls h (\<not> r \<and> d0))))))
            else raise_or_return r (filter (\<lambda>s. s \<noteq> []) (map str_of (map (dispatch ext h)
                   (host_calls ext h (\<not> r \<and> d0) @ room_calls h (\<not> r \<and> d0))))))"
proof (cases "\<not> r \<and> d0")
  case True
  then have flags: "r = False" "d0 = True" by simp_all
  show ?thesis
    unfolding flags check_for_extension_detailed [OF assms]
    by (simp add: comp_def del: map_append)
next
  case False
  then have d: "r \<or> \<not> d0" by simp
  have off: "(\<not> r \<and> d0) = False" using False by simp
  show ?thesis
    unfolding check_for_extension_text [OF assms d] off text_report_def
    by (simp add: comp_def del: map_append filter_map)
qed

lemma collect_room_doe2_dicts_eq:
  "map room_doe2_dict room_dicts = map Inr r_dicts \<Longrightarrow>
   collect_room_doe2_dicts room_dicts acc = Inr (acc @ r_dicts)"
proof (induction room_dicts arbitrary: r_dicts acc)
  case Nil
  then show ?case by simp
next
  case (Cons room_dict room_dicts)
  then obtain r_dict rest where r: "r_dicts = r_dict # rest"
    by (cases r_dicts) auto
  with Cons.prems have "room_doe2_dict room_dict = Inr r_dict"
    and "map room_doe2_dict room_dicts = map Inr rest"
    by simp_all
  then show ?case by (simp add: r Cons.IH)
qed

lemma apply_to_rooms_eq:
  "\<forall>(room, r_dict) \<in> set (zip rs r_dicts).
      r_dict \<noteq> PNone \<longrightarrow> fst (room_apply_properties_from_dict ext room r_dict) = None \<Longrightarrow>
   apply_to_rooms ext rs r_dicts applied =
     (None,
      map (\<lambda>(room, r_dict).
             if r_dict \<noteq> PNone then snd (room_apply_properties_from_dict ext room r_dict)
             else room)
        (zip rs r_dicts) @ drop (length r_dicts) rs,
      applied @ filter (\<lambda>(room, r_dict). r_dict \<noteq> PNone) (zip rs r_dicts))"
proof (induction ext rs r_dicts applied rule: apply_to_rooms.induct)
  case (1 ext room_doe2_dicts applied)
  show ?case by simp
next
  case (2 ext room rest applied)
  show ?case by simp
next
  case (3 ext room rest r_dict r_dicts applied)
  show ?case
  proof (cases "r_dict = PNone")
    case True
    with "3.prems" "3.IH"(2) show ?thesis by simp
  next
    case False
    with "3.prems" have ok: "fst (room_apply_properties_from_dict ext room r_dict) = None"
      by simp
    then obtain room' where app: "room_apply_properties_from_dict ext room r_dict = (None, room')"
      by (cases "room_apply_properties_from_dict ext room r_dict") simp
    from "3.prems" have rest_ok:
      "\<forall>(room, r_dict) \<in> set (zip rest r_dicts).
          r_dict \<noteq> PNone \<longrightarrow> fst (room_apply_properties_from_dict ext room r_dict) = None"
      by simp
    show ?thesis
      using False app "3.IH"(1) [OF False app [symmetric] refl rest_ok]
      by simp
  qed
qed

lemma room_doe2_dict_items:
  assumes "\<forall>p. map_of items ''properties'' = Some p \<longrightarrow> (\<exists>ps. p = PDict ps)"
  shows "room_doe2_dict (PDict items) =
           Inr (case map_of items ''properties'' of
                  Some (PDict ps) \<Rightarrow>
                    (case map_of ps ''doe2'' of Some r_dict \<Rightarrow> r_dict | None \<Rightarrow> PNone)
                | _ \<Rightarrow> PNone)"
proof (cases "map_of items ''properties''")
  case None
  then show ?thesis by (simp add: room_doe2_dict_def)
next
  case (Some p)
  with assms obtain ps where p: "p = PDict ps" by blast
  show ?thesis
    by (simp add: room_doe2_dict_def Some p split: option.splits)
qed

lemma assert_doe2_passes:
  "py_getitem data ''properties'' = Inr props \<Longrightarrow> py_contains ''doe2'' props = Inr True \<Longrightarrow>
   assert_doe2 debug data = None"
  by (simp add: assert_doe2_def)

lemma assert_doe2_off: "assert_doe2 False data = None"
  by (simp add: assert_doe2_def)

lemma py_getitem_not_assertion: "py_getitem v k \<noteq> Inl (AssertionError m)"
  by (cases v) (simp_all split: option.splits)

lemma py_contains_not_assertion: "py_contains k v \<noteq> Inl (AssertionError m)"
  by (cases v) simp_all

lemma py_iter_not_assertion: "py_iter v \<noteq> Inl (AssertionError m)"
  by (cases v) simp_all

lemma room_doe2_dict_not_assertion: "room_doe2_dict v \<noteq> Inl (AssertionError m)"
  using py_getitem_not_assertion [of _ _ m]
  by (auto simp: room_doe2_dict_def split: sum.splits error.splits)

lemma collect_not_assertion: "collect_room_doe2_dicts vs acc \<noteq> Inl (AssertionError m)"
  using room_doe2_dict_not_assertion [of _ m]
  by (induction vs arbitrary: acc) (auto split: sum.splits)

lemma apply_to_rooms_not_raised: "fst (apply_to_rooms ext rs ds applied) \<noteq> Some (Raised e)"
  by (induction ext rs ds applied rule: apply_to_rooms.induct)
    (auto split: prod.splits option.splits)

lemma after_assert_not_assertion:
  assumes "assert_doe2 debug data = None"
  shows "fst (apply_properties_from_dict debug ext h data) \<noteq> Some (Raised (AssertionError m))"
  using assms py_contains_not_assertion [of "''rooms''" data m]
    py_getitem_not_assertion [of data "''rooms''" m]
    py_iter_not_assertion [of _ m]
    collect_not_assertion [of _ "[]" m]
    apply_to_rooms_not_raised [of ext "rooms h" _ "[]" "AssertionError m"]
  by (auto simp: apply_properties_from_dict_def split: sum.splits)

section \<open>Properties of the module\<close>

subsection \<open>C1: when \<^verbatim>\<open>check_for_extension\<close> raises\<close>

text \<open>
  C1. Let the host honour the contract of its checks (asked not to raise, a check returns
  a string when \<^verbatim>\<open>detailed\<close> is false and a list when it is true). If one of the
  delegated checks of the battery, the rooms' hole checks included, reports an issue,
  then \<^verbatim>\<open>check_for_extension\<close> with \<^verbatim>\<open>raise_exception=True\<close> raises the
  \<^verbatim>\<open>ValueError\<close> (the spec's ValidationError) whose message is the non-empty findings
  of all the checks, in call order, joined by newlines. With \<^verbatim>\<open>raise_exception=False\<close>
  the call returns a value, whatever the checks find and whatever \<^verbatim>\<open>detailed\<close> is.
\<close>

theorem check_for_extension_raises_on_issues:
  assumes "honours_contract ext h"
  shows "(let calls = host_calls ext h False @ room_calls h False;
              found = filter (\<lambda>s. s \<noteq> []) (map (\<lambda>c. str_of (dispatch ext h c)) calls)
          in (\<exists>c \<in> set calls. truthy (dispatch ext h c)) \<longrightarrow>
             fst (check_for_extension ext h True detailed tr) = Inl (ValueError (join newline found)))
         \<and> (\<exists>v. fst (check_for_extension ext h False detailed tr) = Inr v)"
proof -
  let ?calls = "host_calls ext h False @ room_calls h False"
  let ?found = "filter (\<lambda>s. s \<noteq> []) (map (\<lambda>c. str_of (dispatch ext h c)) ?calls)"
  have raising: "fst (check_for_extension ext h True detailed tr) = Inl (ValueError (join newline ?found))"
    if "\<exists>c \<in> set ?calls. truthy (dispatch ext h c)"
  proof -
    from that obtain c where c: "c \<in> set ?calls" "truthy (dispatch ext h c)" by blast
    have "?found \<noteq> []"
      using c contract_calls [OF assms c(1)] by (intro truthy_text)
    then show ?thesis
      by (simp add: check_for_extension_text [OF assms] text_report_def raise_or_return_def
          del: filter_map map_append)
  qed
  have returning: "\<exists>v. fst (check_for_extension ext h False detailed tr) = Inr v"
  proof (cases detailed)
    case True
    then show ?thesis by (simp add: check_for_extension_detailed [OF assms])
  next
    case False
    then show ?thesis
      by (simp add: check_for_extension_text [OF assms] text_report_not_raising)
  qed
  show ?thesis
    unfolding Let_def using raising returning by blast
qed

theorem check_for_extension_raises_witness:
  "honours_contract sample_externals faulty_host
   \<and> fst (check_for_extension sample_externals faulty_host True True []) =
       Inl (ValueError (''not planar'' @ newline @ ''missing adjacency'' @ newline @
                        ''Room_B has a hole''))
   \<and> (\<exists>v. fst (check_for_extension sample_externals faulty_host False True []) = Inr v)"
  using check_for_extension_raises_on_issues [OF faulty_host_contract, of True "[]"]
    faulty_host_contract
  by (simp add: host_calls_def room_calls_def faulty_host_def clean_host_def sample_externals_def
      quiet_def issue_def Let_def)

subsection \<open>C2: the marker \<^verbatim>\<open>doe2\<close> is required\<close>

text \<open>
  C2, as amended. Let \<^verbatim>\<open>data['properties']\<close> exist. When Python executes \<^verbatim>\<open>assert\<close>
  statements (\<^verbatim>\<open>__debug__\<close> is true: any run without \<^verbatim>\<open>-O\<close>) and
  \<^verbatim>\<open>data['properties']\<close> does not contain \<^verbatim>\<open>'doe2'\<close>, \<^verbatim>\<open>apply_properties_from_dict\<close>
  raises the \<^verbatim>\<open>AssertionError\<close> (the spec's SchemaError) with the message
  \<^verbatim>\<open>Dictionary possesses no ModelDoe2Properties.\<close>, whatever the host and the rest of
  the dictionary, having changed no room and delegated nothing; no parameter of the method
  turns the check off. When \<^verbatim>\<open>data['properties']\<close> contains \<^verbatim>\<open>'doe2'\<close>, no statement of
  the method raises an \<^verbatim>\<open>AssertionError\<close>, in either mode. Under \<^verbatim>\<open>-O\<close> the
  \<^verbatim>\<open>assert\<close> is compiled out and no statement of the method raises an
  \<^verbatim>\<open>AssertionError\<close>, whatever the dictionary.
\<close>

theorem apply_properties_requires_doe2:
  assumes "py_getitem data ''properties'' = Inr props"
  shows "(py_contains ''doe2'' props = Inr False \<longrightarrow>
            apply_properties_from_dict True ext h data =
              (Some (Raised (AssertionError ''Dictionary possesses no ModelDoe2Properties.'')),
               rooms h, []))
       \<and> (py_contains ''doe2'' props = Inr True \<longrightarrow>
            (\<forall>debug m. fst (apply_properties_from_dict debug ext h data) \<noteq>
                         Some (Raised (AssertionError m))))
       \<and> (\<forall>m. fst (apply_properties_from_dict False ext h data) \<noteq>
                 Some (Raised (AssertionError m)))"
proof (intro conjI impI allI)
  assume "py_contains ''doe2'' props = Inr False"
  with assms show "apply_properties_from_dict True ext h data =
      (Some (Raised (AssertionError ''Dictionary possesses no ModelDoe2Properties.'')),
       rooms h, [])"
    by (simp add: apply_properties_from_dict_def assert_doe2_def)
next
  fix debug m
  assume "py_contains ''doe2'' props = Inr True"
  with assms have "assert_doe2 debug data = None"
    by (rule assert_doe2_passes)
  then show "fst (apply_properties_from_dict debug ext h data) \<noteq>
             Some (Raised (AssertionError m))"
    by (rule after_assert_not_assertion)
next
  fix m
  show "fst (apply_properties_from_dict False ext h data) \<noteq> Some (Raised (AssertionError m))"
    using assert_doe2_off by (rule after_assert_not_assertion)
qed

theorem apply_properties_requires_doe2_witness:
  "apply_properties_from_dict True sample_externals five_room_host data_without_doe2 =
     (Some (Raised (AssertionError ''Dictionary possesses no ModelDoe2Properties.'')),
      rooms five_room_host, [])
   \<and> (\<forall>debug m.
         fst (apply_properties_from_dict debug sample_externals five_room_host sample_data) \<noteq>
         Some (Raised (AssertionError m)))"
proof -
  have absent: "py_getitem data_without_doe2 ''properties'' =
      Inr (PDict [(''type'', PStr ''ModelProperties''), (''energy'', PDict [])])"
    by (simp add: data_without_doe2_def)
  have present: "py_getitem sample_data ''properties'' =
      Inr (PDict [(''type'', PStr ''ModelProperties''),
                  (''doe2'', PDict [(''type'', PStr ''ModelDoe2Properties'')])])"
    by (simp add: sample_data_def)
  show ?thesis
    using apply_properties_requires_doe2 [OF absent, of sample_externals five_room_host]
      apply_properties_requires_doe2 [OF present, of sample_externals five_room_host]
    by simp
qed

text \<open>
  The claim as first stated, that the failure is raised always, fails under \<^verbatim>\<open>-O\<close>:
  on a dictionary whose \<^verbatim>\<open>'properties'\<close> lacks \<^verbatim>\<open>'doe2'\<close> the call returns normally.
\<close>

theorem apply_properties_assert_compiled_out:
  "py_getitem data_without_doe2 ''properties'' =
     Inr (PDict [(''type'', PStr ''ModelProperties''), (''energy'', PDict [])])
   \<and> py_contains ''doe2'' (PDict [(''type'', PStr ''ModelProperties''), (''energy'', PDict [])]
                             :: real pyval) = Inr False
   \<and> apply_properties_from_dict False sample_externals five_room_host data_without_doe2 =
       (None, rooms five_room_host, [])"
  by (simp add: data_without_doe2_def apply_properties_from_dict_def assert_doe2_def
      five_room_host_def clean_host_def)

subsection \<open>C3: raising forces the string shape\<close>

text \<open>
  C3. In each of \<^verbatim>\<open>check_for_extension\<close>, \<^verbatim>\<open>check_generic\<close>, \<^verbatim>\<open>check_all\<close> and
  \<^verbatim>\<open>check_no_room_holes\<close>, whatever the caller passes for \<^verbatim>\<open>detailed\<close> is replaced
  by \<^verbatim>\<open>False\<close> when \<^verbatim>\<open>raise_exception\<close> is true: the run is the run with
  \<^verbatim>\<open>detailed=False\<close>, result and delegated calls alike, and a value it returns is a
  string, never a list. Nothing is assumed of the host or of what its checks return.
\<close>

theorem detailed_forced_when_raising:
  "check_for_extension ext h True detailed tr = check_for_extension ext h True False tr
   \<and> check_generic h True detailed = check_generic h True False
   \<and> check_all h True detailed = check_all h True False
   \<and> check_no_room_holes ext h True detailed tr = check_no_room_holes ext h True False tr
   \<and> (\<forall>v. fst (check_for_extension ext h True detailed tr) = Inr v \<longrightarrow> (\<exists>s. v = PStr s))
   \<and> (\<forall>v. check_generic h True detailed = Inr v \<longrightarrow> (\<exists>s. v = PStr s))
   \<and> (\<forall>v. check_all h True detailed = Inr v \<longrightarrow> (\<exists>s. v = PStr s))
   \<and> (\<forall>v. fst (check_no_room_holes ext h True detailed tr) = Inr v \<longrightarrow> (\<exists>s. v = PStr s))"
proof -
  have generic: "check_generic h True detailed = Inr (PStr [])"
    by (simp add: check_generic_def py_join_def)
  have all: "check_all h True detailed = Inr (PStr [])"
    by (simp add: check_all_def py_join_def)
  have generic': "check_generic h True False = Inr (PStr [])"
    by (simp add: check_generic_def py_join_def)
  have all': "check_all h True False = Inr (PStr [])"
    by (simp add: check_all_def py_join_def)
  show ?thesis
    using check_for_extension_forced [of ext h detailed tr]
      check_no_room_holes_forced [of ext h detailed tr]
      check_for_extension_str [of ext h detailed tr]
      check_no_room_holes_str [of ext h detailed tr]
    by (simp add: generic all generic' all')
qed

theorem detailed_forced_witness:
  "fst (check_for_extension sample_externals clean_host True True []) = Inr (PStr [])
   \<and> check_for_extension sample_externals clean_host True True [] =
       check_for_extension sample_externals clean_host True False []"
proof -
  have run: "fst (check_for_extension sample_externals clean_host True True []) = Inr (PStr [])"
    by (simp add: check_for_extension_def check_no_room_holes_def perform_def Let_def
        clean_host_def sample_externals_def quiet_def py_join_def)
  show ?thesis
    using detailed_forced_when_raising [of sample_externals clean_host True "[]"] run
    by simp
qed

subsection \<open>C4: the two shapes of the report\<close>

text \<open>
  C4. Let the host honour the contract of its checks, and let the results of the checks
  be what the thirteen checks of the host return, in call order, followed by what the
  local \<^verbatim>\<open>check_no_room_holes\<close> returns. With \<^verbatim>\<open>raise_exception=False\<close> and
  \<^verbatim>\<open>detailed=True\<close>, \<^verbatim>\<open>check_for_extension\<close> returns the concatenation of the lists
  of records, in that order. With \<^verbatim>\<open>raise_exception=False\<close> and \<^verbatim>\<open>detailed=False\<close> it
  returns the non-empty strings joined by newlines; with \<^verbatim>\<open>raise_exception=True\<close>, where
  \<^verbatim>\<open>detailed\<close> counts as false, that same string is returned when it is empty and
  raised otherwise. For a host none of whose checks reports an issue the two returned
  values are the empty string and the empty list.
\<close>

theorem check_for_extension_report_shapes:
  assumes "honours_contract ext h"
  shows "fst (check_for_extension ext h False True tr) =
           Inr (PList (concat (map list_of (check_results ext h True))))
       \<and> fst (check_for_extension ext h False False tr) =
           Inr (PStr (join newline (filter (\<lambda>s. s \<noteq> []) (map str_of (check_results ext h False)))))
       \<and> fst (check_for_extension ext h True detailed tr) =
           (let found = filter (\<lambda>s. s \<noteq> []) (map str_of (check_results ext h False))
            in if found = [] then Inr (PStr []) else Inl (ValueError (join newline found)))
       \<and> ((\<forall>v \<in> set (check_results ext h False). \<not> truthy v) \<longrightarrow>
              fst (check_for_extension ext h False False tr) = Inr (PStr []))
       \<and> ((\<forall>v \<in> set (check_results ext h True). \<not> truthy v) \<longrightarrow>
              fst (check_for_extension ext h False True tr) = Inr (PList []))"
proof -
  let ?found = "filter (\<lambda>s. s \<noteq> []) (map str_of (check_results ext h False))"
  have lists: "fst (check_for_extension ext h False True tr) =
                 Inr (PList (concat (map list_of (check_results ext h True))))"
    unfolding check_for_extension_detailed_nested [OF assms] check_results_lists [OF assms]
    by simp
  have joined: "fst (check_for_extension ext h r False tr) = text_report r (map str_of (check_results ext h False))" for r
    unfolding check_results_text [OF assms]
    by (simp add: check_for_extension_text_nested [OF assms] del: filter_map map_append)
  have plain: "fst (check_for_extension ext h False False tr) = Inr (PStr (join newline ?found))"
    unfolding joined text_report_not_raising by (rule refl)
  have raising: "fst (check_for_extension ext h True detailed tr) =
                   (if ?found = [] then Inr (PStr []) else Inl (ValueError (join newline ?found)))"
    using check_for_extension_forced [of ext h detailed tr] joined [of True]
    by (simp add: text_report_def raise_or_return_def del: filter_map)
  have no_text: "fst (check_for_extension ext h False False tr) = Inr (PStr [])"
    if "\<forall>v \<in> set (check_results ext h False). \<not> truthy v"
    unfolding plain not_truthy_texts [OF that] by simp
  have no_list: "fst (check_for_extension ext h False True tr) = Inr (PList [])"
    if "\<forall>v \<in> set (check_results ext h True). \<not> truthy v"
    unfolding lists not_truthy_lists [OF that] by simp
  show ?thesis
    unfolding Let_def using lists plain raising no_text no_list by blast
qed

theorem check_for_extension_report_shapes_witness:
  "honours_contract sample_externals clean_host
   \<and> honours_contract sample_externals faulty_host
   \<and> fst (check_for_extension sample_externals clean_host False False []) = Inr (PStr [])
   \<and> fst (check_for_extension sample_externals clean_host False True []) = Inr (PList [])
   \<and> fst (check_for_extension sample_externals faulty_host False False []) =
       Inr (PStr (''not planar'' @ newline @ ''missing adjacency'' @ newline @
                  ''Room_B has a hole''))
   \<and> fst (check_for_extension sample_externals faulty_host False True []) =
       Inr (PList [PDict [(''message'', PStr ''not planar'')],
                   PDict [(''message'', PStr ''missing adjacency'')],
                   PDict [(''message'', PStr ''Room_B has a hole'')]])"
  using check_for_extension_report_shapes [OF clean_host_contract, of "[]" False]
    check_for_extension_report_shapes [OF faulty_host_contract, of "[]" False]
    clean_host_contract faulty_host_contract
  by (simp add: Let_def check_results_def host_calls_def check_no_room_holes_def perform_def
      faulty_host_def clean_host_def sample_externals_def quiet_def issue_def py_join_def)

subsection \<open>C5: the order of the delegated calls\<close>

text \<open>
  C5. Every run of \<^verbatim>\<open>check_for_extension\<close> adds to the trace, once each and in this
  order: the duplicate-identifier check, planarity, self-intersection, degenerate rooms,
  sub-face validity, sub-face overlap, room solidity, upside-down faces, room-volume
  collisions, missing adjacencies, matching adjacent areas, air-boundary adjacency and the
  energy extension's reversed interior constructions, each with the raise flag false and
  the forced \<^verbatim>\<open>detailed\<close>, then the calls of the local \<^verbatim>\<open>check_no_room_holes\<close>, itself
  run with the raise flag false and the same \<^verbatim>\<open>detailed\<close>. When the host honours the
  contract of its checks, the local check calls \<^verbatim>\<open>check_no_holes\<close> of each room in
  turn, and the report merges what the calls returned in the order of the trace.
\<close>

theorem check_for_extension_call_order:
  "(let d = (\<not> raise_exception \<and> detailed);
        tol = tolerance h;
        ang_tol = angle_tolerance h;
        e_tol = parse_distance_string ext ''0.03ft'' (units h);
        calls =
          [Check_all_duplicate_identifiers False d,
           Check_planar tol False d,
           Check_self_intersecting tol False d,
           Check_degenerate_rooms e_tol False d,
           Check_sub_faces_valid tol ang_tol False d,
           Check_sub_faces_overlapping tol False d,
           Check_rooms_solid tol ang_tol False d,
           Check_upside_down_faces ang_tol False d,
           Check_room_volume_collisions tol False d,
           Check_missing_adjacencies False d,
           Check_matching_adjacent_areas tol False d,
           Check_all_air_boundaries_adjacent False d,
           Check_interior_constructions_reversed False d]
          @ snd (check_no_room_holes ext h False d [])
    in snd (check_for_extension ext h raise_exception detailed tr) = tr @ calls
       \<and> (honours_contract ext h \<longrightarrow>
            snd (check_no_room_holes ext h False d []) =
              map (\<lambda>room. Check_no_holes room False d) (rooms h)
            \<and> fst (check_for_extension ext h raise_exception detailed tr) =
                (let results = map (dispatch ext h) calls;
                     found = filter (\<lambda>s. s \<noteq> []) (map str_of results)
                 in if d then Inr (PList (concat (map list_of results)))
                    else if raise_exception \<and> found \<noteq> [] then Inl (ValueError (join newline found))
                    else Inr (PStr (join newline found)))))"
proof -
  let ?d = "\<not> raise_exception \<and> detailed"
  let ?local = "snd (check_no_room_holes ext h False ?d [])"
  have trace: "snd (check_for_extension ext h raise_exception detailed tr) =
               tr @ host_calls ext h ?d @ ?local"
    by (rule check_for_extension_trace)
  have rooms_trace: "?local = map (\<lambda>room. Check_no_holes room False ?d) (rooms h)"
    if "honours_contract ext h"
    using check_no_room_holes_contract_trace [OF that, of ?d "[]"] by (simp add: room_calls_def)
  have merged: "fst (check_for_extension ext h raise_exception detailed tr) =
      (if ?d then Inr (PList (concat (map list_of (map (dispatch ext h) (host_calls ext h ?d @ ?local)))))
       else if raise_exception \<and>
               filter (\<lambda>s. s \<noteq> []) (map str_of (map (dispatch ext h) (host_calls ext h ?d @ ?local))) \<noteq> []
            then Inl (ValueError (join newline
               (filter (\<lambda>s. s \<noteq> []) (map str_of (map (dispatch ext h) (host_calls ext h ?d @ ?local))))))
            else Inr (PStr (join newline
               (filter (\<lambda>s. s \<noteq> []) (map str_of (map (dispatch ext h) (host_calls ext h ?d @ ?local)))))))"
    if "honours_contract ext h"
    unfolding check_for_extension_merged [OF that]
      check_no_room_holes_contract_trace [OF that, of ?d "[]"] raise_or_return_def append_Nil
    by (rule refl)
  show ?thesis
    unfolding Let_def host_calls_def [symmetric]
    using trace rooms_trace merged by blast
qed

theorem check_for_extension_call_order_witness:
  "honours_contract sample_externals faulty_host
   \<and> snd (check_for_extension sample_externals faulty_host True True []) =
       [Check_all_duplicate_identifiers False False,
        Check_planar 0.01 False False,
        Check_self_intersecting 0.01 False False,
        Check_degenerate_rooms 0.009144 False False,
        Check_sub_faces_valid 0.01 1 False False,
        Check_sub_faces_overlapping 0.01 False False,
        Check_rooms_solid 0.01 1 False False,
        Check_upside_down_faces 1 False False,
        Check_room_volume_collisions 0.01 False False,
        Check_missing_adjacencies False False,
        Check_matching_adjacent_areas 0.01 False False,
        Check_all_air_boundaries_adjacent False False,
        Check_interior_constructions_reversed False False,
        Check_no_holes (''Room_A'', PNone) False False,
        Check_no_holes (''Room_B'', PNone) False False]
   \<and> fst (check_for_extension sample_externals faulty_host True True []) =
       Inl (ValueError (''not planar'' @ newline @ ''missing adjacency'' @ newline @
                        ''Room_B has a hole''))"
  using check_for_extension_call_order
    [where ext = sample_externals and h = faulty_host and raise_exception = True
       and detailed = True and tr = "[]"]
    faulty_host_contract
  by (simp add: Let_def check_no_room_holes_def perform_def faulty_host_def clean_host_def
      sample_externals_def quiet_def issue_def py_join_def)

subsection \<open>C6: the tolerance of the degenerate-room check\<close>

text \<open>
  C6. In every run of \<^verbatim>\<open>check_for_extension\<close>, whatever the flags and whatever the
  checks return, \<^verbatim>\<open>check_degenerate_rooms\<close> is called once, and the tolerance it is
  given is \<^verbatim>\<open>parse_distance_string('0.03ft', self.host.units)\<close>: the tolerances handed
  to that check over the run's trace are the ones of the trace it started from, followed
  by this single one.
\<close>

theorem degenerate_rooms_tolerance_is_parsed:
  "degenerate_rooms_tolerances (snd (check_for_extension ext h raise_exception detailed tr)) =
   degenerate_rooms_tolerances tr @ [parse_distance_string ext ''0.03ft'' (units h)]"
  by (simp add: snd_check_for_extension snd_check_no_room_holes loop_tolerances
      tolerances_append host_calls_tolerances)

subsection \<open>C7: rooms and their dictionaries are paired by position\<close>

text \<open>
  C7. Let \<^verbatim>\<open>data['properties']\<close> contain \<^verbatim>\<open>'doe2'\<close>, let \<^verbatim>\<open>data['rooms']\<close> be a list
  of dictionaries in each of which \<^verbatim>\<open>'properties'\<close>, when present, is a dictionary, and
  let no room's own \<^verbatim>\<open>apply_properties_from_dict\<close> raise. The sub-record of a room
  dictionary is the value at \<^verbatim>\<open>['properties']['doe2']\<close>, whatever it is (an empty
  dictionary included), and \<^verbatim>\<open>None\<close> when either key is missing. Then
  \<^verbatim>\<open>apply_properties_from_dict\<close> returns normally, whatever the two lengths are: the
  rooms of the host are paired by position with the sub-records up to the shorter of the
  two; a paired room whose dictionary has no sub-record, or \<^verbatim>\<open>None\<close> for one, is left as
  it was and nothing is delegated for it; for every other paired room the application is
  delegated to the room, in order; the rooms beyond the shorter length are left as they
  were.
\<close>

theorem apply_properties_zips_rooms:
  assumes "py_getitem data ''properties'' = Inr props"
    and "py_contains ''doe2'' props = Inr True"
    and "py_getitem data ''rooms'' = Inr (PList (map PDict room_items))"
    and "\<forall>items \<in> set room_items.
           \<forall>p. map_of items ''properties'' = Some p \<longrightarrow> (\<exists>ps. p = PDict ps)"
    and "r_dicts =
           map (\<lambda>items.
                  case map_of items ''properties'' of
                    Some (PDict ps) \<Rightarrow>
                      (case map_of ps ''doe2'' of Some r_dict \<Rightarrow> r_dict | None \<Rightarrow> PNone)
                  | _ \<Rightarrow> PNone)
             room_items"
    and "\<forall>(room, r_dict) \<in> set (zip (rooms h) r_dicts).
           r_dict \<noteq> PNone \<longrightarrow> fst (room_apply_properties_from_dict ext room r_dict) = None"
  shows "apply_properties_from_dict debug ext h data =
           (None,
            map (\<lambda>(room, r_dict).
                   if r_dict \<noteq> PNone then snd (room_apply_properties_from_dict ext room r_dict)
                   else room)
              (zip (rooms h) r_dicts) @ drop (length r_dicts) (rooms h),
            filter (\<lambda>(room, r_dict). r_dict \<noteq> PNone) (zip (rooms h) r_dicts))"
proof -
  from assms(3) obtain kvs where data: "data = PDict kvs"
    by (cases data) simp_all
  from assms(3) have has_rooms: "py_contains ''rooms'' data = Inr True"
    by (auto simp: data split: option.splits)
  have passes: "assert_doe2 debug data = None"
    using assms(1,2) by (rule assert_doe2_passes)
  have "map room_doe2_dict (map PDict room_items) = map Inr r_dicts"
    unfolding assms(5) using assms(4) by (simp add: room_doe2_dict_items)
  then have collected: "collect_room_doe2_dicts (map PDict room_items) [] = Inr r_dicts"
    using collect_room_doe2_dicts_eq [of "map PDict room_items" r_dicts "[]"] by simp
  show ?thesis
    using assms(3) passes has_rooms collected apply_to_rooms_eq [OF assms(6), of "[]"]
    by (simp add: apply_properties_from_dict_def)
qed

theorem apply_properties_zips_rooms_witness:
  "apply_properties_from_dict True sample_externals six_room_host sample_data =
     (None,
      [(''Room_A'', PDict [(''type'', PStr ''RoomDoe2Properties'')]),
       (''Room_B'', PNone),
       (''Room_C'', PNone),
       (''Room_D'', PDict []),
       (''Room_E'', PNone),
       (''Room_F'', PNone)],
      [((''Room_A'', PNone), PDict [(''type'', PStr ''RoomDoe2Properties'')]),
       ((''Room_D'', PNone), PDict [])])
   \<and> apply_properties_from_dict True sample_externals faulty_host sample_data =
     (None,
      [(''Room_A'', PDict [(''type'', PStr ''RoomDoe2Properties'')]),
       (''Room_B'', PNone)],
      [((''Room_A'', PNone), PDict [(''type'', PStr ''RoomDoe2Properties'')])])"
proof -
  let ?props = "PDict [(''type'', PStr ''ModelProperties''),
                       (''doe2'', PDict [(''type'', PStr ''ModelDoe2Properties'')])] :: real pyval"
  let ?room_items =
    "[[(''identifier'', PStr ''Room_A''),
       (''properties'', PDict [(''doe2'', PDict [(''type'', PStr ''RoomDoe2Properties'')])])],
      [(''identifier'', PStr ''Room_B''),
       (''properties'', PDict [(''type'', PStr ''RoomProperties'')])],
      [(''identifier'', PStr ''Room_C'')],
      [(''identifier'', PStr ''Room_D''), (''properties'', PDict [(''doe2'', PDict [])])],
      [(''identifier'', PStr ''Room_E''), (''properties'', PDict [(''doe2'', PNone)])]]
     :: (string \<times> real pyval) list list"
  let ?r_dicts =
    "[PDict [(''type'', PStr ''RoomDoe2Properties'')], PNone, PNone, PDict [], PNone]
     :: real pyval list"
  have p: "py_getitem sample_data ''properties'' = Inr ?props"
    by (simp add: sample_data_def)
  have d: "py_contains ''doe2'' ?props = Inr True" by simp
  have r: "py_getitem sample_data ''rooms'' = Inr (PList (map PDict ?room_items))"
    by (simp add: sample_data_def)
  have dicts: "\<forall>items \<in> set ?room_items.
      \<forall>p. map_of items ''properties'' = Some p \<longrightarrow> (\<exists>ps. p = PDict ps)"
    by simp
  have subs: "?r_dicts =
      map (\<lambda>items.
             case map_of items ''properties'' of
               Some (PDict ps) \<Rightarrow>
                 (case map_of ps ''doe2'' of Some r_dict \<Rightarrow> r_dict | None \<Rightarrow> PNone)
             | _ \<Rightarrow> PNone)
        ?room_items"
    by simp
  have quiet6: "\<forall>(room, r_dict) \<in> set (zip (rooms six_room_host) ?r_dicts).
      r_dict \<noteq> PNone \<longrightarrow> fst (room_apply_properties_from_dict sample_externals room r_dict) = None"
    by (simp add: sample_externals_def)
  have quiet2: "\<forall>(room, r_dict) \<in> set (zip (rooms faulty_host) ?r_dicts).
      r_dict \<noteq> PNone \<longrightarrow> fst (room_apply_properties_from_dict sample_externals room r_dict) = None"
    by (simp add: sample_externals_def)
  show ?thesis
    using apply_properties_zips_rooms [OF p d r dicts subs quiet6, of True]
      apply_properties_zips_rooms [OF p d r dicts subs quiet2, of True]
    by (simp add: six_room_host_def faulty_host_def clean_host_def sample_externals_def)
qed

subsection \<open>C8: the local hole check\<close>

text \<open>
  C8. \<^verbatim>\<open>check_no_room_holes\<close> calls \<^verbatim>\<open>check_no_holes\<close> of every room of the host, in
  the order of \<^verbatim>\<open>host.rooms\<close>, with the raise flag false and with the format it will
  itself produce (\<^verbatim>\<open>detailed\<close>, forced to false when \<^verbatim>\<open>raise_exception\<close> is true). When
  the rooms answer in that format, the merged report keeps the order of the rooms: the
  concatenation of their lists, or their non-empty strings joined by newlines; and the
  \<^verbatim>\<open>ValueError\<close> with the joined message is raised exactly when \<^verbatim>\<open>raise_exception\<close> is
  true and some room reported an issue, the merged report being returned otherwise.
\<close>

theorem check_no_room_holes_delegates:
  assumes "\<forall>room \<in> set (rooms h).
             shaped (\<not> raise_exception \<and> detailed)
               (check_no_holes ext room False (\<not> raise_exception \<and> detailed))"
  shows "check_no_room_holes ext h raise_exception detailed tr =
           (let d = (\<not> raise_exception \<and> detailed);
                results = map (\<lambda>room. check_no_holes ext room False d) (rooms h);
                found = filter (\<lambda>s. s \<noteq> []) (map str_of results)
            in (if d then Inr (PList (concat (map list_of results)))
                else if raise_exception \<and> found \<noteq> [] then Inl (ValueError (join newline found))
                else Inr (PStr (join newline found)),
                tr @ map (\<lambda>room. Check_no_holes room False d) (rooms h)))"
proof (cases raise_exception)
  case True
  with assms have ok: "\<forall>room \<in> set (rooms h). shaped False (check_no_holes ext room False False)"
    by simp
  show ?thesis
    using True check_no_room_holes_forced [of ext h detailed tr]
      check_no_room_holes_text [OF ok, of True tr]
    by (simp add: text_report_def raise_or_return_def room_calls_def comp_def Let_def
        del: filter_map)
next
  case False
  note no_raise = False
  show ?thesis
  proof (cases detailed)
    case True
    with assms no_raise
    have ok: "\<forall>room \<in> set (rooms h). shaped True (check_no_holes ext room False True)"
      by simp
    show ?thesis
      using True no_raise check_no_room_holes_detailed [OF ok, of tr]
      by (simp add: room_calls_def comp_def Let_def)
  next
    case False
    with assms no_raise
    have ok: "\<forall>room \<in> set (rooms h). shaped False (check_no_holes ext room False False)"
      by simp
    show ?thesis
      using False no_raise check_no_room_holes_text [OF ok, of False tr]
      by (simp add: text_report_def raise_or_return_def room_calls_def comp_def Let_def
          del: filter_map)
  qed
qed

theorem check_no_room_holes_witness:
  "check_no_room_holes sample_externals faulty_host True True [] =
     (Inl (ValueError ''Room_B has a hole''),
      [Check_no_holes (''Room_A'', PNone) False False,
       Check_no_holes (''Room_B'', PNone) False False])
   \<and> check_no_room_holes sample_externals faulty_host False True [] =
     (Inr (PList [PDict [(''message'', PStr ''Room_B has a hole'')]]),
      [Check_no_holes (''Room_A'', PNone) False True,
       Check_no_holes (''Room_B'', PNone) False True])"
proof -
  have shape: "\<forall>room \<in> set (rooms faulty_host).
                 shaped (\<not> r \<and> d) (check_no_holes sample_externals room False (\<not> r \<and> d))" for r d
    by (simp add: faulty_host_def clean_host_def sample_externals_def quiet_def issue_def)
  show ?thesis
    using check_no_room_holes_delegates [OF shape [of True True], of "[]"]
      check_no_room_holes_delegates [OF shape [of False True], of "[]"]
    by (simp add: faulty_host_def clean_host_def sample_externals_def quiet_def issue_def Let_def)
qed

subsection \<open>C10: a dictionary without rooms\<close>

text \<open>
  C10. When \<^verbatim>\<open>data['properties']\<close> contains \<^verbatim>\<open>'doe2'\<close> and \<^verbatim>\<open>data\<close> has no
  \<^verbatim>\<open>'rooms'\<close> key, or \<^verbatim>\<open>data['rooms']\<close> is \<^verbatim>\<open>None\<close>, \<^verbatim>\<open>apply_properties_from_dict\<close>
  returns normally, delegates to no room and leaves the rooms of the host as they were,
  whether or not the interpreter executes \<^verbatim>\<open>assert\<close> statements.
\<close>

theorem apply_properties_without_rooms:
  assumes "py_getitem data ''properties'' = Inr props"
    and "py_contains ''doe2'' props = Inr True"
    and "py_contains ''rooms'' data = Inr False \<or> py_getitem data ''rooms'' = Inr PNone"
  shows "apply_properties_from_dict debug ext h data = (None, rooms h, [])"
proof -
  from assms(1) obtain kvs where data: "data = PDict kvs"
    by (cases data) simp_all
  have passes: "assert_doe2 debug data = None"
    using assms(1,2) by (rule assert_doe2_passes)
  from assms(3) show ?thesis
  proof
    assume "py_contains ''rooms'' data = Inr False"
    with passes show ?thesis by (simp add: apply_properties_from_dict_def)
  next
    assume none: "py_getitem data ''rooms'' = Inr PNone"
    then have "py_contains ''rooms'' data = Inr True"
      by (auto simp: data split: option.splits)
    with passes none show ?thesis by (simp add: apply_properties_from_dict_def)
  qed
qed

theorem apply_properties_without_rooms_witness:
  "apply_properties_from_dict True sample_externals five_room_host data_without_rooms =
     (None, rooms five_room_host, [])
   \<and> apply_properties_from_dict True sample_externals five_room_host data_null_rooms =
     (None, rooms five_room_host, [])
   \<and> apply_properties_from_dict False sample_externals five_room_host data_null_rooms =
     (None, rooms five_room_host, [])"
proof -
  let ?props = "PDict [(''type'', PStr ''ModelProperties''),
                       (''doe2'', PDict [(''type'', PStr ''ModelDoe2Properties'')])] :: real pyval"
  have p1: "py_getitem data_without_rooms ''properties'' = Inr ?props"
    by (simp add: data_without_rooms_def)
  have p2: "py_getitem data_null_rooms ''properties'' = Inr ?props"
    by (simp add: data_null_rooms_def)
  have d: "py_contains ''doe2'' ?props = Inr True" by simp
  have r1: "py_contains ''rooms'' data_without_rooms = Inr False \<or>
            py_getitem data_without_rooms ''rooms'' = Inr PNone"
    by (simp add: data_without_rooms_def)
  have r2: "py_contains ''rooms'' data_null_rooms = Inr False \<or>
            py_getitem data_null_rooms ''rooms'' = Inr PNone"
    by (simp add: data_null_rooms_def)
  show ?thesis
    using apply_properties_without_rooms [OF p1 d r1, of True sample_externals five_room_host]
      apply_properties_without_rooms [OF p2 d r2, of True sample_externals five_room_host]
      apply_properties_without_rooms [OF p2 d r2, of False sample_externals five_room_host]
    by simp
qed

subsection \<open>Further properties\<close>

text \<open>
  \<^verbatim>\<open>check_generic\<close> and \<^verbatim>\<open>check_all\<close> run no check: for any host and any flags
  they return the empty report, the empty list when \<^verbatim>\<open>detailed\<close> is in force and the
  empty string otherwise, and never raise.
\<close>

theorem check_generic_and_check_all_empty:
  "check_generic h raise_exception detailed =
     Inr (if \<not> raise_exception \<and> detailed then PList [] else PStr [])
   \<and> check_all h raise_exception detailed =
     Inr (if \<not> raise_exception \<and> detailed then PList [] else PStr [])"
  by (simp add: check_generic_def check_all_def py_join_def)

text \<open>
  What \<^verbatim>\<open>to_dict\<close> returns passes the assertion of \<^verbatim>\<open>apply_properties_from_dict\<close>:
  applied as the \<^verbatim>\<open>'properties'\<close> of a dictionary with no other key, it returns
  normally and touches no room.
\<close>

theorem to_dict_is_accepted:
  "apply_properties_from_dict debug ext h (PDict [(''properties'', to_dict)]) =
     (None, rooms h, [])"
  by (simp add: apply_properties_from_dict_def assert_doe2_def to_dict_def)

end
